theory Spec2Isabelle
  imports Complex_Main "HOL-Library.Multiset"
begin

section \<open>Data model\<close>

text \<open>
  The three modules of SALib embedded here are \<open>SALib/analyze/sobol_jansen.py\<close>,
  \<open>SALib/sample/radial.py\<close> and \<open>SALib/sample/latin.py\<close>.

  Python's floats are modelled as \<open>real\<close>: there is no rounding and no overflow. The one
  place where the code divides by a value that can be zero (the base variance) is written
  out with numpy's result there (\<open>inf\<close> or \<open>nan\<close>, a warning and no exception), see
  \<open>np_float\<close>. Python's integers are \<open>int\<close>.
\<close>

datatype error = AssertionError | ValueError | AttributeError | ZeroDivisionError

datatype np_float = Finite real | PosInf | NegInf | NaN

text \<open>The problem dict: \<open>dists\<close> is optional (\<open>problem.get('dists')\<close>).\<close>

record problem =
  num_vars :: int
  names :: "string list"
  bounds :: "(real \<times> real) list"
  dists :: "string list option"

text \<open>The \<open>ResultDict\<close> that \<open>analyze\<close> returns, with its three keys.\<close>

record result =
  Si_names :: "string list"
  Si_ST :: "np_float list"
  Si_ST_conf :: "np_float list"

text \<open>
  The state of \<open>np.random\<close>, process-wide: the sequence of raw values that the
  generator will yield from now on. Drawing \<open>n\<close> values takes the first \<open>n\<close> of them and
  leaves the rest.
\<close>

type_synonym rng = "nat \<Rightarrow> nat"

definition rng_take :: "nat \<Rightarrow> rng \<Rightarrow> nat list" where
  "rng_take n g = map g [0..<n]"

definition rng_drop :: "nat \<Rightarrow> rng \<Rightarrow> rng" where
  "rng_drop n g = (\<lambda>i. g (n + i))"

text \<open>
  What a call of \<open>analyze\<close> can reach: the data buffers of the numpy arrays (an address is
  an index into \<open>arrays\<close>; a buffer is flat, a two-dimensional array is stored row after
  row), the problem dicts, and the random state.
\<close>

record world =
  arrays :: "real list list"
  dicts :: "problem list"
  rng :: rng

section \<open>numpy and scipy operations used by the sources\<close>

text \<open>\<open>if seed:\<close> holds for a seed that is neither \<open>None\<close> nor \<open>0\<close>.\<close>

definition truthy :: "int option \<Rightarrow> bool" where
  "truthy seed = (case seed of None \<Rightarrow> False | Some s \<Rightarrow> s \<noteq> 0)"

text \<open>\<open>np.empty\<close>: a fresh buffer at the next free address. Its content is arbitrary in
  numpy; every cell is written before it is read, and the model starts it at \<open>0\<close>.\<close>

definition np_empty :: "nat \<Rightarrow> world \<Rightarrow> nat \<times> world" where
  "np_empty n w = (length (arrays w), w\<lparr>arrays := arrays w @ [replicate n 0]\<rparr>)"

text \<open>Number of elements of the slice \<open>Y[pos::nth]\<close> of an array of \<open>len\<close> elements.\<close>

definition slice_len :: "nat \<Rightarrow> nat \<Rightarrow> nat \<Rightarrow> nat" where
  "slice_len len pos step = (if pos < len then (len - pos + step - 1) div step else 0)"

text \<open>
  Reading the view \<open>Y[pos::nth]\<close> (\<open>nth > 0\<close>): the elements at \<open>pos\<close>, \<open>pos + nth\<close>,
  \<open>pos + 2 * nth\<close>, ... of the buffer. The slice is a view, not a copy: it is read from
  the buffer as it is at the time of the read.
\<close>

definition strided :: "nat \<Rightarrow> nat \<Rightarrow> real list \<Rightarrow> real list" where
  "strided pos step buf =
     map (\<lambda>k. buf ! (pos + k * step)) [0..<slice_len (length buf) pos step]"

text \<open>\<open>a - b\<close> on two arrays of the same length.\<close>

definition np_sub :: "real list \<Rightarrow> real list \<Rightarrow> real list" where
  "np_sub xs ys = map (\<lambda>(x, y). x - y) (zip xs ys)"

text \<open>\<open>st[i] = v\<close> on the array of \<open>ncols\<close> columns whose buffer is at address \<open>a\<close>:
  the cells of row \<open>i\<close> are overwritten with \<open>v\<close>.\<close>

definition write_at :: "nat \<Rightarrow> real list \<Rightarrow> real list \<Rightarrow> real list" where
  "write_at off v buf = take off buf @ v @ drop (off + length v) buf"

definition set_row :: "nat \<Rightarrow> nat \<Rightarrow> nat \<Rightarrow> real list \<Rightarrow> world \<Rightarrow> world" where
  "set_row a ncols i v w =
     w\<lparr>arrays := (arrays w)[a := write_at (i * ncols) v (arrays w ! a)]\<rparr>"

text \<open>The rows of the two-dimensional array of shape \<open>(nr, nc)\<close> stored in \<open>buf\<close>.\<close>

definition mat_rows :: "nat \<Rightarrow> nat \<Rightarrow> real list \<Rightarrow> real list list" where
  "mat_rows nr nc buf = map (\<lambda>i. map (\<lambda>k. buf ! (i * nc + k)) [0..<nc]) [0..<nr]"

text \<open>\<open>m.T\<close> of an array of shape \<open>(nr, nc)\<close>: shape \<open>(nc, nr)\<close>.\<close>

definition np_T :: "nat \<Rightarrow> nat \<Rightarrow> real list list \<Rightarrow> real list list" where
  "np_T nr nc m = map (\<lambda>c. map (\<lambda>r. m ! r ! c) [0..<nr]) [0..<nc]"

definition np_mean :: "real list \<Rightarrow> real" where
  "np_mean xs = sum_list xs / real (length xs)"

text \<open>\<open>np.var(xs)\<close> with its default \<open>ddof = 0\<close>: the mean of the squared deviations
  from the mean. On an empty array numpy returns \<open>nan\<close>.\<close>

definition np_var :: "real list \<Rightarrow> np_float" where
  "np_var xs =
     (if xs = [] then NaN
      else Finite ((\<Sum>x\<leftarrow>xs. (x - np_mean xs)\<^sup>2) / real (length xs)))"

text \<open>
  \<open>a / b\<close> for a finite \<open>a\<close>, as numpy divides: a zero divisor gives \<open>nan\<close> for \<open>0 / 0\<close>
  and an infinity otherwise; an infinite divisor gives \<open>0\<close>. (Signed zeros are not
  modelled.)
\<close>

definition np_div :: "real \<Rightarrow> np_float \<Rightarrow> np_float" where
  "np_div a b =
     (case b of
        Finite d \<Rightarrow>
          (if d \<noteq> 0 then Finite (a / d)
           else if a = 0 then NaN else if 0 < a then PosInf else NegInf)
      | PosInf \<Rightarrow> Finite 0
      | NegInf \<Rightarrow> Finite 0
      | NaN \<Rightarrow> NaN)"

definition is_Finite :: "np_float \<Rightarrow> bool" where
  "is_Finite x = (case x of Finite _ \<Rightarrow> True | _ \<Rightarrow> False)"

definition the_Finite :: "np_float \<Rightarrow> real" where
  "the_Finite x = (case x of Finite v \<Rightarrow> v | _ \<Rightarrow> 0)"

text \<open>\<open>np.sqrt\<close> on a real. It has no code equation: a concrete square root is
  left as it stands, or computed by the simplifier where it is rational.\<close>

definition np_sqrt :: "real \<Rightarrow> real" where
  [code del]: "np_sqrt x = sqrt x"

text \<open>
  \<open>xs.std(ddof=1)\<close>: the square root of the sum of squared deviations over \<open>n - 1\<close>.
  With fewer than two values the quotient is \<open>0 / 0\<close>, and with a \<open>nan\<close> or an infinity
  among the values a deviation is \<open>nan\<close>: the result is \<open>nan\<close>.
\<close>

definition np_std_ddof1 :: "np_float list \<Rightarrow> np_float" where
  "np_std_ddof1 xs =
     (if length xs < 2 \<or> \<not> list_all is_Finite xs then NaN
      else let vs = map the_Finite xs
           in Finite (np_sqrt ((\<Sum>v\<leftarrow>vs. (v - np_mean vs)\<^sup>2) / (real (length vs) - 1))))"

text \<open>\<open>c * x\<close> for a finite scalar \<open>c\<close>.\<close>

definition np_scale :: "real \<Rightarrow> np_float \<Rightarrow> np_float" where
  "np_scale c x =
     (case x of
        Finite v \<Rightarrow> Finite (c * v)
      | PosInf \<Rightarrow> (if 0 < c then PosInf else if c < 0 then NegInf else NaN)
      | NegInf \<Rightarrow> (if 0 < c then NegInf else if c < 0 then PosInf else NaN)
      | NaN \<Rightarrow> NaN)"

text \<open>
  \<open>np.random.randint(high, size=(n0, n1))\<close>: \<open>n0 * n1\<close> draws, each reduced into
  \<open>[0, high)\<close>, row after row. numpy raises \<open>ValueError\<close> for \<open>high \<le> 0\<close> and for a
  negative dimension.
\<close>

definition np_random_randint ::
  "int \<Rightarrow> int \<Rightarrow> int \<Rightarrow> rng \<Rightarrow> (error + nat list list) \<times> rng" where
  "np_random_randint high n0 n1 g =
     (if high \<le> 0 \<or> n0 < 0 \<or> n1 < 0 then (Inl ValueError, g)
      else (Inr (map (\<lambda>b. map (\<lambda>r. r mod nat high) (rng_take (nat n1) (rng_drop (b * nat n1) g)))
                   [0..<nat n0]),
            rng_drop (nat n0 * nat n1) g))"

section \<open>The Jansen estimator (\<open>sobol_jansen.py\<close>)\<close>

text \<open>
  \<open>jansen_estimator(N, si)\<close> is \<open>(1.0/(2.0*N)) * np.sum(si**2, axis=0)\<close>. On an array
  of shape \<open>(n0, n1)\<close> the sum over axis 0 has shape \<open>(n1)\<close>; on an array of shape
  \<open>(n0, n1, n2)\<close> it has shape \<open>(n1, n2)\<close>. \<open>1.0/(2.0*N)\<close> raises for \<open>N = 0\<close>.
\<close>

definition jansen_estimator :: "int \<Rightarrow> nat \<Rightarrow> real list list \<Rightarrow> error + real list" where
  "jansen_estimator N n1 si =
     (if N = 0 then Inl ZeroDivisionError
      else Inr (map (\<lambda>j. (1 / (2 * real_of_int N)) * (\<Sum>row\<leftarrow>si. (row ! j)\<^sup>2)) [0..<n1]))"

definition jansen_estimator3 ::
  "int \<Rightarrow> nat \<Rightarrow> nat \<Rightarrow> real list list list \<Rightarrow> error + real list list" where
  "jansen_estimator3 N n1 n2 si =
     (if N = 0 then Inl ZeroDivisionError
      else Inr (map (\<lambda>n. map (\<lambda>j. (1 / (2 * real_of_int N)) * (\<Sum>m\<leftarrow>si. (m ! n ! j)\<^sup>2))
                              [0..<n2])
                   [0..<n1]))"

text \<open>
  \<open>compute_radial_si_confidence(si, base_var, N, num_resamples, conf_level)\<close>, with \<open>si\<close>
  of shape \<open>(d, n)\<close>. \<open>ppf\<close> is \<open>scipy.stats.norm.ppf\<close>, the quantile function of the
  standard normal distribution, which is no part of this repository.
\<close>

definition compute_radial_si_confidence ::
  "(real \<Rightarrow> real) \<Rightarrow> nat \<times> nat \<Rightarrow> real list list \<Rightarrow> np_float \<Rightarrow> int \<Rightarrow> int \<Rightarrow> real \<Rightarrow> rng
     \<Rightarrow> (error + np_float list) \<times> rng" where
  "compute_radial_si_confidence ppf shape si base_var N num_resamples conf_level g =
     (let (d, n) = shape;
          tmp_si = np_T d n si
      in if \<not> (0 < conf_level \<and> conf_level < 1) then (Inl ValueError, g)
         else case np_random_randint (int n) num_resamples N g of
           (Inl e, g') \<Rightarrow> (Inl e, g')
         | (Inr resample_index, g') \<Rightarrow>
             (let si_resampled = map (map (\<lambda>ix. tmp_si ! ix)) resample_index
              in case jansen_estimator3 N (nat N) d si_resampled of
                   Inl e \<Rightarrow> (Inl e, g')
                 | Inr je \<Rightarrow>
                     (let res = map (map (\<lambda>v. np_div v base_var)) je
                      in (Inr (map (\<lambda>j. np_scale (ppf (0.5 + conf_level / 2.0))
                                           (np_std_ddof1 (map (\<lambda>row. row ! j) res)))
                                   [0..<d]),
                          g'))))"

text \<open>
  \<open>analyze(problem, Y, sample_sets, num_resamples, conf_level, seed)\<close>: \<open>p\<close> and \<open>y\<close> are
  the addresses of the problem dict and of the buffer of \<open>Y\<close>.

  \<^item> \<open>Y.shape[0] / sample_sets\<close> is Python's true division of two integers, which raises
    \<open>ZeroDivisionError\<close> for a zero divisor.
  \<^item> \<open>np.random.set_seed(seed)\<close>: numpy's random module has no attribute \<open>set_seed\<close>
    (its seeding function is \<open>np.random.seed\<close>, the one \<open>radial.sample\<close> calls), so the
    attribute lookup raises \<open>AttributeError\<close>.
  \<^item> \<open>np.empty((num_vars, sample_sets))\<close> raises \<open>ValueError\<close> for a negative dimension.
  \<^item> \<open>Y_base = Y[0::nth]\<close> is a view of \<open>Y\<close>; it is read in \<open>np.var\<close> and again in every
    round of the loop.
\<close>

text \<open>The \<open>for i in range(num_vars)\<close> loop of \<open>analyze\<close>: round \<open>i\<close> writes
  \<open>Y_base - Y[pos::nth]\<close> into row \<open>i\<close> of \<open>st\<close>.\<close>

definition collect_changes :: "nat \<Rightarrow> nat \<Rightarrow> nat \<Rightarrow> nat \<Rightarrow> world \<Rightarrow> world" where
  "collect_changes st y d n w =
     fold (\<lambda>i wi. let pos = i + 1
                   in set_row st n i
                        (np_sub (strided 0 (d + 1) (arrays wi ! y))
                                (strided pos (d + 1) (arrays wi ! y))) wi)
          [0..<d] w"

definition analyze ::
  "(real \<Rightarrow> real) \<Rightarrow> nat \<Rightarrow> nat \<Rightarrow> int \<Rightarrow> int \<Rightarrow> real \<Rightarrow> int option \<Rightarrow> world
     \<Rightarrow> (error + result) \<times> world" where
  "analyze ppf p y sample_sets num_resamples conf_level seed w =
     (let num_vars = problem.num_vars (dicts w ! p)
      in if sample_sets = 0 then (Inl ZeroDivisionError, w)
         else if real (length (arrays w ! y)) / real_of_int sample_sets
                   \<noteq> real_of_int (num_vars + 1)
           then (Inl AssertionError, w)
         else if truthy seed then (Inl AttributeError, w)
         else if num_vars < 0 \<or> sample_sets < 0 then (Inl ValueError, w)
         else
           (let d = nat num_vars;
                n = nat sample_sets;
                (st, w1) = np_empty (d * n) w;
                base_variance = np_var (strided 0 (d + 1) (arrays w1 ! y));
                r = sample_sets;
                w2 = collect_changes st y d n w1;
                st_rows = mat_rows d n (arrays w2 ! st)
            in case jansen_estimator r d (np_T d n st_rows) of
                 Inl e \<Rightarrow> (Inl e, w2)
               | Inr je \<Rightarrow>
                   (let ST = map (\<lambda>v. np_div v base_variance) je
                    in case compute_radial_si_confidence ppf (d, n) st_rows base_variance r
                              num_resamples conf_level (rng w2) of
                         (Inl e, g') \<Rightarrow> (Inl e, w2\<lparr>rng := g'\<rparr>)
                       | (Inr conf, g') \<Rightarrow>
                           (Inr \<lparr>Si_names = problem.names (dicts w2 ! p),
                                 Si_ST = ST, Si_ST_conf = conf\<rparr>,
                            w2\<lparr>rng := g'\<rparr>))))"

section \<open>Collaborators of the samplers\<close>

text \<open>
  Modelled from the spec: \<open>sobol_sequence.sample\<close> (\<open>SALib/sample/sobol_sequence.py\<close>) is
  not among the sources. The spec gives \<open>low_discrepancy(count, dims) -> Matrix[count, dims]\<close>,
  deterministic, and has the radial sampler take two slices of the same sequence. The
  sequence itself is the parameter \<open>q\<close>: \<open>q i k\<close> is coordinate \<open>k\<close> of its point \<open>i\<close>, a
  value of the unit interval. A negative count or dimension makes no matrix (numpy refuses
  a negative dimension with \<open>ValueError\<close>). The limits of a real generator (its
  largest count and dimension) are not modelled.
\<close>

definition sobol_sequence_sample ::
  "(nat \<Rightarrow> nat \<Rightarrow> real) \<Rightarrow> int \<Rightarrow> int \<Rightarrow> error + real list list" where
  "sobol_sequence_sample q N D =
     (if N < 0 \<or> D < 0 then Inl ValueError
      else Inr (map (\<lambda>i. map (\<lambda>k. q i k) [0..<nat D]) [0..<nat N]))"

text \<open>
  Modelled from the spec: \<open>scale_samples\<close> (\<open>SALib/util\<close>) is not among the sources. The
  spec gives \<open>scale_linear(matrix, bounds)\<close>: in place, each column is mapped linearly from
  \<open>[0, 1)\<close> to \<open>[low, high)\<close>; a malformed problem definition (a bound with
  \<open>low \<ge> high\<close>, a length mismatch) is an error that the collaborator raises. The model
  returns the scaled matrix, and the caller goes on with it under the same name.
\<close>

definition scale_samples :: "real list list \<Rightarrow> (real \<times> real) list \<Rightarrow> error + real list list" where
  "scale_samples params bnds =
     (if list_ex (\<lambda>(lo, hi). lo \<ge> hi) bnds \<or> list_ex (\<lambda>row. length row \<noteq> length bnds) params
      then Inl ValueError
      else Inr (map (\<lambda>row. map (\<lambda>(x, (lo, hi)). x * (hi - lo) + lo) (zip row bnds)) params))"


text \<open>
  \<open>np.random.seed(s)\<close>: the state becomes the one that the generator derives from \<open>s\<close>
  (the parameter \<open>mt\<close>); numpy raises \<open>ValueError\<close> unless \<open>0 \<le> s < 2 ^ 32\<close>.
\<close>

definition np_random_seed :: "(nat \<Rightarrow> rng) \<Rightarrow> int \<Rightarrow> error + rng" where
  "np_random_seed mt s = (if 0 \<le> s \<and> s < 2 ^ 32 then Inr (mt (nat s)) else Inl ValueError)"



section \<open>The radial sampler (\<open>radial.py\<close>)\<close>

text \<open>\<open>np.repeat(a, repeats=k, axis=0)\<close>: every row \<open>k\<close> times in a row.\<close>

definition np_repeat :: "nat \<Rightarrow> 'a list \<Rightarrow> 'a list" where
  "np_repeat k a = concat (map (replicate k) a)"

text \<open>\<open>np.diag(v)\<close>: the square matrix with \<open>v\<close> on its diagonal and zero elsewhere.\<close>

definition np_diag :: "real list \<Rightarrow> real list list" where
  "np_diag v = map (\<lambda>j. map (\<lambda>k. if k = j then v ! j else 0) [0..<length v]) [0..<length v]"

text \<open>\<open>np.copyto(dst, src, where=src != 0.0)\<close> on two matrices of the same shape.\<close>

definition copyto_nonzero :: "real list list \<Rightarrow> real list list \<Rightarrow> real list list" where
  "copyto_nonzero dst src =
     map (\<lambda>(drow, srow). map (\<lambda>(dv, sv). if sv \<noteq> 0 then sv else dv) (zip drow srow))
         (zip dst src)"

text \<open>
  One round of the loop over the perturbations: the rows
  \<open>grp_start + 1 .. grp_start + nv\<close> of \<open>sample_set\<close> (\<open>nv\<close> is \<open>num_vars\<close>) take the non-zero entries of
  the diagonal matrix, and \<open>grp_start\<close> moves to the next block.
\<close>

definition overlay :: "nat \<Rightarrow> real list \<Rightarrow> nat \<times> real list list \<Rightarrow> nat \<times> real list list" where
  "overlay nv pert st =
     (let (grp_start, sample_set) = st;
          diag = np_diag pert;
          tgt = take nv (drop (grp_start + 1) sample_set)
      in (grp_start + nv + 1,
          take (grp_start + 1) sample_set @ copyto_nonzero tgt diag
            @ drop (grp_start + nv + 1) sample_set))"

text \<open>The scaled baselines \<open>subsetted_base\<close> and the scaled \<open>perturbations\<close> of \<open>sample\<close>.\<close>

definition radial_base :: "(nat \<Rightarrow> nat \<Rightarrow> real) \<Rightarrow> problem \<Rightarrow> int \<Rightarrow> error + real list list" where
  "radial_base q problem N =
     (let discard = 4; R = N + discard
      in case sobol_sequence_sample q R (num_vars problem) of
           Inl e \<Rightarrow> Inl e
         | Inr base_sequence \<Rightarrow> scale_samples (drop (nat discard) base_sequence) (bounds problem))"

definition radial_perturbations ::
  "(nat \<Rightarrow> nat \<Rightarrow> real) \<Rightarrow> problem \<Rightarrow> int \<Rightarrow> error + real list list" where
  "radial_perturbations q problem N =
     (let discard = 4; R = N + discard
      in case sobol_sequence_sample q (R + N) (num_vars problem) of
           Inl e \<Rightarrow> Inl e
         | Inr perturbations \<Rightarrow> scale_samples (drop (nat R) perturbations) (bounds problem))"

text \<open>\<open>sample(problem, N, seed)\<close> of \<open>radial.py\<close>, on the random state \<open>g\<close>.\<close>

definition radial_sample ::
  "(nat \<Rightarrow> nat \<Rightarrow> real) \<Rightarrow> (nat \<Rightarrow> rng) \<Rightarrow> problem \<Rightarrow> int \<Rightarrow> int option \<Rightarrow> rng
     \<Rightarrow> (error + real list list) \<times> rng" where
  "radial_sample q mt problem N seed g =
     (case (if truthy seed then np_random_seed mt (the seed) else Inr g) of
        Inl e \<Rightarrow> (Inl e, g)
      | Inr g1 \<Rightarrow>
          (case radial_base q problem N of
             Inl e \<Rightarrow> (Inl e, g1)
           | Inr subsetted_base \<Rightarrow>
               (let group = num_vars problem + 1;
                    sample_set = np_repeat (nat group) subsetted_base
                in case radial_perturbations q problem N of
                     Inl e \<Rightarrow> (Inl e, g1)
                   | Inr perturbations \<Rightarrow>
                       (Inr (snd (fold (overlay (nat (num_vars problem))) perturbations
                                       (0, sample_set))),
                        g1))))"

section \<open>The Latin hypercube sampler (\<open>latin.py\<close>)\<close>






section \<open>The claims' vocabulary and concrete inputs\<close>

text \<open>
  \<open>Y\<close> seen as contiguous blocks of \<open>d + 1\<close> entries: the entry at position \<open>j\<close> of block
  \<open>b\<close>, the baselines (position 0 of each of the \<open>n\<close> blocks), and the elementary effect of
  dimension \<open>i\<close> (\<open>1 \<le> i \<le> d\<close>), baseline minus position \<open>i\<close>, block by block.
\<close>

definition block_entry :: "nat \<Rightarrow> real list \<Rightarrow> nat \<Rightarrow> nat \<Rightarrow> real" where
  "block_entry d Y b j = Y ! (b * (d + 1) + j)"

definition baselines :: "nat \<Rightarrow> nat \<Rightarrow> real list \<Rightarrow> real list" where
  "baselines d n Y = map (\<lambda>b. block_entry d Y b 0) [0..<n]"

definition effect :: "nat \<Rightarrow> nat \<Rightarrow> real list \<Rightarrow> nat \<Rightarrow> real list" where
  "effect d n Y i = map (\<lambda>b. block_entry d Y b 0 - block_entry d Y b i) [0..<n]"

text \<open>The Jansen estimator of a vector \<open>v\<close> over \<open>r\<close> replicates, as the spec writes it:
  \<open>sum(v^2) / (2*r)\<close>.\<close>

definition jansen_formula :: "real list \<Rightarrow> nat \<Rightarrow> real" where
  "jansen_formula v r = (\<Sum>x\<leftarrow>v. x\<^sup>2) / (2 * real r)"

text \<open>The shape precondition as the code tests it: the quotient \<open>Y.length / sample_sets\<close>
  exists and is \<open>D + 1\<close>.\<close>

definition shape_ok :: "nat \<Rightarrow> int \<Rightarrow> int \<Rightarrow> bool" where
  "shape_ok len sample_sets D =
     (sample_sets \<noteq> 0 \<and> real len / real_of_int sample_sets = real_of_int (D + 1))"

text \<open>
  The spec's words for the base variance, "sample variance across replicates": the sum of
  squared deviations over \<open>n - 1\<close> (the spec's "sample" statistic is the one with delta
  degrees of freedom 1). \<open>spec_ST\<close> is the total-effect index with that variance.
\<close>

definition sample_variance :: "real list \<Rightarrow> real" where
  "sample_variance xs = (\<Sum>x\<leftarrow>xs. (x - np_mean xs)\<^sup>2) / (real (length xs) - 1)"

definition spec_ST :: "nat \<Rightarrow> nat \<Rightarrow> real list \<Rightarrow> nat \<Rightarrow> np_float" where
  "spec_ST d n Y i =
     np_div (jansen_formula (effect d n Y i) n) (Finite (sample_variance (baselines d n Y)))"

text \<open>The \<open>ST\<close> entry of what \<open>analyze\<close> returns.\<close>

definition analyze_ST ::
  "(real \<Rightarrow> real) \<Rightarrow> nat \<Rightarrow> nat \<Rightarrow> int \<Rightarrow> int \<Rightarrow> real \<Rightarrow> int option \<Rightarrow> world
     \<Rightarrow> error + np_float list" where
  "analyze_ST ppf p y sample_sets num_resamples conf_level seed w =
     map_sum id Si_ST (fst (analyze ppf p y sample_sets num_resamples conf_level seed w))"

text \<open>
  Concrete inputs. The problem and the outputs \<open>Y = [10, 12, 9, 20, 22, 21]\<close> are those of
  the spec's scenarios. \<open>ppf_example\<close> stands for the normal quantile function where a
  concrete one is needed: like it, it is positive on \<open>(1/2, 1)\<close>; its values are not used.
  \<open>rng_example\<close> is a sequence of raw generator values.
\<close>

definition ppf_example :: "real \<Rightarrow> real" where
  "ppf_example q = 4 * (q - 1 / 2)"

definition rng_example :: rng where
  "rng_example = (\<lambda>i. 7919 * i * i + 12345678912345 * i + 3)"

definition problem_example :: problem where
  "problem_example =
     \<lparr>num_vars = 2, names = [''x1'', ''x2''], bounds = [(0, 1), (0, 1)], dists = None\<rparr>"

definition world_example :: world where
  "world_example =
     \<lparr>arrays = [[10, 12, 9, 20, 22, 21]], dicts = [problem_example], rng = rng_example\<rparr>"

text \<open>
  The radial sampler's vocabulary. \<open>scale_row\<close> is the linear scaling of one row into
  the bounds, \<open>scaled_point q bnds i\<close> is point \<open>i\<close> of the sequence scaled into the
  bounds, \<open>radial_block base pert\<close> is one block of the design: the baseline, then for
  every dimension the baseline with that one coordinate replaced by the perturbation's
  where that is not zero. \<open>radial_matrix\<close> is the design of \<open>n\<close> blocks, baselines from
  point 4 on and perturbations from point \<open>n + 4\<close> on.
\<close>

definition scale_row :: "(real \<times> real) list \<Rightarrow> real list \<Rightarrow> real list" where
  "scale_row bnds row = map (\<lambda>(x, (lo, hi)). x * (hi - lo) + lo) (zip row bnds)"

definition scaled_point :: "(nat \<Rightarrow> nat \<Rightarrow> real) \<Rightarrow> (real \<times> real) list \<Rightarrow> nat \<Rightarrow> real list" where
  "scaled_point q bnds i = scale_row bnds (map (\<lambda>k. q i k) [0..<length bnds])"

definition radial_block :: "real list \<Rightarrow> real list \<Rightarrow> real list list" where
  "radial_block base pert =
     base # map (\<lambda>j. map (\<lambda>k. if k = j \<and> pert ! k \<noteq> 0 then pert ! k else base ! k)
                         [0..<length base])
                [0..<length pert]"

definition radial_matrix ::
  "(nat \<Rightarrow> nat \<Rightarrow> real) \<Rightarrow> (real \<times> real) list \<Rightarrow> nat \<Rightarrow> real list list" where
  "radial_matrix q bnds n =
     concat (map (\<lambda>b. radial_block (scaled_point q bnds (4 + b)) (scaled_point q bnds (n + 4 + b)))
                 [0..<n])"

text \<open>
  Well-formed inputs of the samplers: one legal bound (\<open>low < high\<close>) for each of the
  \<open>num_vars\<close> parameters; a seed that \<open>np.random.seed\<close> accepts; for the Latin sampler
  with distributions, one distribution for each bound.
\<close>

definition bounds_ok :: "problem \<Rightarrow> bool" where
  "bounds_ok problem =
     (int (length (bounds problem)) = num_vars problem
      \<and> list_all (\<lambda>(lo, hi). lo < hi) (bounds problem))"

definition seed_ok :: "int option \<Rightarrow> bool" where
  "seed_ok seed = (case seed of None \<Rightarrow> True | Some s \<Rightarrow> 0 \<le> s \<and> s < 2 ^ 32)"








text \<open>
  More concrete inputs. \<open>sobol_example\<close> holds the first ten points of the Sobol sequence
  in two dimensions. \<open>mt_example\<close> stands for the generator's seeding and
  \<open>icdf_example\<close> for the inverse CDFs where concrete ones are needed; their values are
  not used. \<open>problem_shifted\<close> has a second bound under which the perturbation of the
  first replicate in the second dimension is scaled to exactly zero.
\<close>

definition sobol_example :: "nat \<Rightarrow> nat \<Rightarrow> real" where
  "sobol_example i k =
     (let points = [[0, 0], [1/2, 1/2], [3/4, 1/4], [1/4, 3/4], [3/8, 3/8], [7/8, 7/8],
                    [5/8, 1/8], [1/8, 5/8], [3/16, 5/16], [11/16, 13/16]]
      in if i < length points \<and> k < 2 then points ! i ! k else 0)"

definition mt_example :: "nat \<Rightarrow> rng" where
  "mt_example s = (\<lambda>i. s + i)"


definition problem_shifted :: problem where
  "problem_shifted =
     \<lparr>num_vars = 2, names = [''x1'', ''x2''], bounds = [(0, 1), (- 1, 7)], dists = None\<rparr>"


section \<open>Arrays, slices and the loop of \<open>analyze\<close>\<close>

lemma nth_concat_uniform:
  "(\<forall>r\<in>set rows. length r = n) \<Longrightarrow> i < length rows \<Longrightarrow> k < n
     \<Longrightarrow> concat rows ! (i * n + k) = rows ! i ! k"
proof (induction rows arbitrary: i)
  case Nil
  then show ?case by simp
next
  case (Cons r rs)
  show ?case
  proof (cases i)
    case 0
    with Cons.prems show ?thesis by (simp add: nth_append)
  next
    case (Suc i')
    have "(r @ concat rs) ! (length r + (i' * n + k)) = concat rs ! (i' * n + k)"
      by (rule nth_append_length_plus)
    moreover have "length r = n" using Cons.prems by simp
    moreover have "concat rs ! (i' * n + k) = rs ! i' ! k"
      using Cons.IH[of i'] Cons.prems Suc by simp
    ultimately show ?thesis using Suc by (simp add: add.assoc)
  qed
qed

lemma length_concat_uniform:
  "(\<forall>r\<in>set rows. length r = n) \<Longrightarrow> length (concat rows) = length rows * n"
  by (induction rows) auto

lemma slice_len_blocks: "pos \<le> d \<Longrightarrow> slice_len (n * (d + 1)) pos (d + 1) = n"
proof (cases "n = 0")
  case True
  then show ?thesis by (simp add: slice_len_def)
next
  case False
  assume p: "pos \<le> d"
  have lt: "pos < n * (d + 1)"
  proof -
    have "pos < 1 * (d + 1)" using p by simp
    also have "\<dots> \<le> n * (d + 1)" using False by (intro mult_le_mono1) simp
    finally show ?thesis .
  qed
  have "(n * (d + 1) - pos + (d + 1) - 1) div (d + 1) = n"
  proof (rule div_nat_eqI)
    show "(d + 1) * n \<le> n * (d + 1) - pos + (d + 1) - 1" using p lt by (simp add: algebra_simps)
    show "n * (d + 1) - pos + (d + 1) - 1 < (d + 1) * Suc n" using p lt by (simp add: algebra_simps)
  qed
  with lt show ?thesis by (simp add: slice_len_def)
qed

lemma strided_blocks:
  "length Y = n * (d + 1) \<Longrightarrow> pos \<le> d
     \<Longrightarrow> strided pos (d + 1) Y = map (\<lambda>b. Y ! (b * (d + 1) + pos)) [0..<n]"
proof -
  assume len: "length Y = n * (d + 1)" and p: "pos \<le> d"
  have "slice_len (length Y) pos (d + 1) = n"
    unfolding len by (rule slice_len_blocks[OF p])
  then show ?thesis
    unfolding strided_def by (simp add: add.commute)
qed

lemma np_sub_map: "np_sub (map f xs) (map g xs) = map (\<lambda>b. f b - g b) xs"
  by (induction xs) (simp_all add: np_sub_def)

lemma strided_baselines:
  "length Y = n * (d + 1) \<Longrightarrow> strided 0 (d + 1) Y = baselines d n Y"
  using strided_blocks[of Y n d 0] by (simp add: baselines_def block_entry_def)

lemma np_sub_strided:
  assumes "length Y = n * (d + 1)" and "i < d"
  shows "np_sub (strided 0 (d + 1) Y) (strided (i + 1) (d + 1) Y) = effect d n Y (i + 1)"
proof -
  have "strided (i + 1) (d + 1) Y = map (\<lambda>b. Y ! (b * (d + 1) + (i + 1))) [0..<n]"
    using assms by (intro strided_blocks) simp_all
  moreover have "strided 0 (d + 1) Y = map (\<lambda>b. Y ! (b * (d + 1) + 0)) [0..<n]"
    using assms by (intro strided_blocks) simp_all
  ultimately show ?thesis
    by (simp only: np_sub_map effect_def block_entry_def)
qed

lemma length_effect: "length (effect d n Y i) = n"
  by (simp add: effect_def)

text \<open>The loop writes only the buffer of \<open>st\<close>.\<close>

lemma set_row_frame:
  "L \<le> st \<Longrightarrow> take L (arrays (set_row st n i v w)) = take L (arrays w)
     \<and> dicts (set_row st n i v w) = dicts w \<and> rng (set_row st n i v w) = rng w
     \<and> length (arrays (set_row st n i v w)) = length (arrays w)"
  by (simp add: set_row_def)

lemma fold_set_row_frame:
  "L \<le> st \<Longrightarrow>
   take L (arrays (fold (\<lambda>i wi. set_row st n i (v i wi) wi) ixs w)) = take L (arrays w)
     \<and> dicts (fold (\<lambda>i wi. set_row st n i (v i wi) wi) ixs w) = dicts w
     \<and> rng (fold (\<lambda>i wi. set_row st n i (v i wi) wi) ixs w) = rng w
     \<and> length (arrays (fold (\<lambda>i wi. set_row st n i (v i wi) wi) ixs w)) = length (arrays w)"
proof (induction ixs arbitrary: w)
  case Nil
  then show ?case by simp
next
  case (Cons i ixs)
  from Cons.IH[OF Cons.prems, of "set_row st n i (v i w) w"] set_row_frame[OF Cons.prems, of n i "v i w" w]
  show ?case by simp
qed

lemma collect_changes_frame:
  "L \<le> st \<Longrightarrow>
   take L (arrays (collect_changes st y d n w)) = take L (arrays w)
     \<and> dicts (collect_changes st y d n w) = dicts w
     \<and> rng (collect_changes st y d n w) = rng w
     \<and> length (arrays (collect_changes st y d n w)) = length (arrays w)"
  unfolding collect_changes_def Let_def by (rule fold_set_row_frame)

lemma write_at_row:
  assumes "length A = off"
  shows "write_at off v (A @ replicate (length v + x) 0) = (A @ v) @ replicate x 0"
  using assms by (simp add: write_at_def replicate_add)

lemma collect_changes_prefix:
  assumes y: "y < length (arrays w)" and len: "length (arrays w ! y) = n * (d + 1)"
    and m: "m \<le> d"
  shows "fold (\<lambda>i wi. let pos = i + 1
                   in set_row (length (arrays w)) n i
                        (np_sub (strided 0 (d + 1) (arrays wi ! y))
                                (strided pos (d + 1) (arrays wi ! y))) wi)
          [0..<m] (w\<lparr>arrays := arrays w @ [replicate (d * n) 0]\<rparr>)
        = w\<lparr>arrays := arrays w @ [concat (map (\<lambda>i. effect d n (arrays w ! y) (i + 1)) [0..<m])
                                     @ replicate ((d - m) * n) 0]\<rparr>"
  using m
proof (induction m)
  case 0
  then show ?case by simp
next
  case (Suc m)
  let ?Y = "arrays w ! y"
  let ?A = "concat (map (\<lambda>i. effect d n ?Y (i + 1)) [0..<m])"
  have md: "m < d" using Suc.prems by simp
  have lenA: "length ?A = m * n"
    using length_concat_uniform[of "map (\<lambda>i. effect d n ?Y (i + 1)) [0..<m]" n]
    by (simp add: length_effect)
  have split: "(d - m) * n = length (effect d n ?Y (m + 1)) + (d - Suc m) * n"
  proof -
    have "d - m = Suc (d - Suc m)" using md by simp
    then have "(d - m) * n = Suc (d - Suc m) * n" by simp
    then show ?thesis by (simp add: length_effect)
  qed
  have w: "write_at (m * n) (effect d n ?Y (m + 1)) (?A @ replicate ((d - m) * n) 0)
           = (?A @ effect d n ?Y (m + 1)) @ replicate ((d - Suc m) * n) 0"
    unfolding split by (rule write_at_row[OF lenA])
  have sub: "np_sub (strided 0 (d + 1) ?Y) (strided (m + 1) (d + 1) ?Y) = effect d n ?Y (m + 1)"
    by (rule np_sub_strided[OF len md])
  show ?case
    using Suc.IH md y w sub
    by (simp add: Let_def set_row_def nth_append)
qed

lemma mat_rows_concat:
  assumes "length rows = d" and "\<forall>r\<in>set rows. length r = n"
  shows "mat_rows d n (concat rows) = rows"
proof (rule nth_equalityI)
  show "length (mat_rows d n (concat rows)) = length rows"
    using assms by (simp add: mat_rows_def)
next
  fix i assume "i < length (mat_rows d n (concat rows))"
  then have i: "i < d" by (simp add: mat_rows_def)
  have li: "length (rows ! i) = n" using assms i by simp
  have "map (\<lambda>k. concat rows ! (i * n + k)) [0..<n] = rows ! i"
  proof (rule nth_equalityI)
    show "length (map (\<lambda>k. concat rows ! (i * n + k)) [0..<n]) = length (rows ! i)"
      using li by simp
  next
    fix k assume "k < length (map (\<lambda>k. concat rows ! (i * n + k)) [0..<n])"
    then have k: "k < n" by simp
    then show "map (\<lambda>k. concat rows ! (i * n + k)) [0..<n] ! k = rows ! i ! k"
      using nth_concat_uniform[of rows n i k] assms i by simp
  qed
  then show "mat_rows d n (concat rows) ! i = rows ! i"
    using i by (simp add: mat_rows_def)
qed

lemma sum_squares_column:
  assumes "j < d" and "length (rows ! j) = n"
  shows "(\<Sum>row\<leftarrow>np_T d n rows. (row ! j)\<^sup>2) = (\<Sum>x\<leftarrow>rows ! j. x\<^sup>2)"
proof -
  have "(\<Sum>row\<leftarrow>np_T d n rows. (row ! j)\<^sup>2) = (\<Sum>c\<leftarrow>[0..<n]. (rows ! j ! c)\<^sup>2)"
    using assms(1) by (simp add: np_T_def comp_def)
  also have "\<dots> = (\<Sum>x\<leftarrow>map (\<lambda>c. rows ! j ! c) [0..<n]. x\<^sup>2)"
    by (simp add: comp_def)
  also have "map (\<lambda>c. rows ! j ! c) [0..<n] = rows ! j"
    using assms(2) map_nth[of "rows ! j"] by simp
  finally show ?thesis .
qed

lemma jansen_estimator_rows:
  assumes "N \<noteq> 0" and "length rows = d" and "\<forall>r\<in>set rows. length r = nat N" and "0 < N"
  shows "jansen_estimator N d (np_T d (nat N) rows)
           = Inr (map (\<lambda>j. jansen_formula (rows ! j) (nat N)) [0..<d])"
proof -
  have "(1 / (2 * real_of_int N)) * (\<Sum>row\<leftarrow>np_T d (nat N) rows. (row ! j)\<^sup>2)
          = jansen_formula (rows ! j) (nat N)" if "j < d" for j
  proof -
    have "length (rows ! j) = nat N" using assms that by simp
    then show ?thesis
      using sum_squares_column[OF that, of rows "nat N"] assms(4)
      by (simp add: jansen_formula_def)
  qed
  then show ?thesis using assms(1) by (simp add: jansen_estimator_def)
qed

lemma sum_list_squares_nonneg: "0 \<le> (\<Sum>x\<leftarrow>xs. (f x)\<^sup>2 :: real)"
  by (rule sum_list_nonneg) auto

lemma jansen_formula_nonneg: "0 \<le> jansen_formula v r"
  unfolding jansen_formula_def
  using sum_list_squares_nonneg[of "\<lambda>x. x" v] by simp

lemma np_std_ddof1_nonneg:
  assumes "2 \<le> length xs" and "list_all is_Finite xs"
  shows "\<exists>v. np_std_ddof1 xs = Finite v \<and> 0 \<le> v"
proof -
  let ?vs = "map the_Finite xs"
  have "0 \<le> (\<Sum>v\<leftarrow>?vs. (v - np_mean ?vs)\<^sup>2) / (real (length ?vs) - 1)"
    using assms(1) sum_list_squares_nonneg[of "\<lambda>v. v - np_mean ?vs" ?vs]
    by (intro divide_nonneg_nonneg) simp_all
  then have "0 \<le> np_sqrt ((\<Sum>v\<leftarrow>?vs. (v - np_mean ?vs)\<^sup>2) / (real (length ?vs) - 1))"
    by (simp add: np_sqrt_def)
  then show ?thesis using assms by (simp add: np_std_ddof1_def Let_def)
qed

text \<open>What \<open>compute_radial_si_confidence\<close> returns for \<open>N > 0\<close> replicates.\<close>

lemma confidence_invalid_level:
  "\<not> (0 < conf_level \<and> conf_level < 1) \<Longrightarrow>
   compute_radial_si_confidence ppf (d, n) si bv N num_resamples conf_level g = (Inl ValueError, g)"
  by (simp add: compute_radial_si_confidence_def)

lemma confidence_negative_resamples:
  "0 < conf_level \<Longrightarrow> conf_level < 1 \<Longrightarrow> num_resamples < 0 \<Longrightarrow>
   compute_radial_si_confidence ppf (d, n) si bv N num_resamples conf_level g = (Inl ValueError, g)"
  by (simp add: compute_radial_si_confidence_def np_random_randint_def)

lemma confidence_returns:
  assumes "0 < conf_level" "conf_level < 1" "0 \<le> num_resamples" "0 < N" "0 < n"
  shows "\<exists>conf. compute_radial_si_confidence ppf (d, n) si bv N num_resamples conf_level g
            = (Inr conf, rng_drop (nat num_resamples * nat N) g)
          \<and> length conf = d
          \<and> (\<forall>j<d. \<exists>col. conf ! j = np_scale (ppf (0.5 + conf_level / 2.0)) (np_std_ddof1 col)
                 \<and> length col = nat N \<and> (\<forall>x\<in>set col. \<exists>v. x = np_div v bv))"
proof -
  define idx where "idx = map (\<lambda>b. map (\<lambda>r. r mod nat (int n))
                                    (rng_take (nat N) (rng_drop (b * nat N) g)))
                              [0..<nat num_resamples]"
  define je where "je = map (\<lambda>k. map (\<lambda>j. (1 / (2 * real_of_int N))
                                * (\<Sum>m\<leftarrow>map (map (\<lambda>ix. np_T d n si ! ix)) idx. (m ! k ! j)\<^sup>2))
                              [0..<d]) [0..<nat N]"
  define res where "res = map (map (\<lambda>v. np_div v bv)) je"
  define conf where "conf = map (\<lambda>j. np_scale (ppf (0.5 + conf_level / 2.0))
                                      (np_std_ddof1 (map (\<lambda>row. row ! j) res))) [0..<d]"
  have "compute_radial_si_confidence ppf (d, n) si bv N num_resamples conf_level g
          = (Inr conf, rng_drop (nat num_resamples * nat N) g)"
    using assms
    by (simp add: compute_radial_si_confidence_def np_random_randint_def jansen_estimator3_def
                  Let_def conf_def res_def je_def idx_def)
  moreover have "length conf = d" by (simp add: conf_def)
  moreover have "\<exists>col. conf ! j = np_scale (ppf (0.5 + conf_level / 2.0)) (np_std_ddof1 col)
                 \<and> length col = nat N \<and> (\<forall>x\<in>set col. \<exists>v. x = np_div v bv)" if "j < d" for j
  proof (intro exI conjI)
    show "conf ! j = np_scale (ppf (0.5 + conf_level / 2.0))
                       (np_std_ddof1 (map (\<lambda>row. row ! j) res))"
      using that by (simp add: conf_def)
    show "length (map (\<lambda>row. row ! j) res) = nat N" by (simp add: res_def je_def)
    show "\<forall>x\<in>set (map (\<lambda>row. row ! j) res). \<exists>v. x = np_div v bv"
      using that by (auto simp: res_def je_def)
  qed
  ultimately show ?thesis by blast
qed

lemma shape_nat:
  assumes "0 < ss" and "0 \<le> nv"
    and "real (length Y) / real_of_int ss = real_of_int (nv + 1)"
  shows "length Y = nat ss * (nat nv + 1)"
proof -
  have "real (length Y) = real_of_int (nv + 1) * real_of_int ss"
    using assms(1,3) by (simp add: field_simps)
  then have "real_of_int (int (length Y)) = real_of_int ((nv + 1) * ss)" by simp
  then have "int (length Y) = (nv + 1) * ss" by (simp only: of_int_eq_iff)
  moreover have "int (nat ss * (nat nv + 1)) = (nv + 1) * ss"
    using assms(1,2) by (simp add: algebra_simps)
  ultimately show ?thesis by linarith
qed

lemma collect_changes_result:
  assumes y: "y < length (arrays w)" and len: "length (arrays w ! y) = n * (d + 1)"
  shows "collect_changes (length (arrays w)) y d n (w\<lparr>arrays := arrays w @ [replicate (d * n) 0]\<rparr>)
        = w\<lparr>arrays := arrays w @ [concat (map (\<lambda>i. effect d n (arrays w ! y) (i + 1)) [0..<d])]\<rparr>"
  unfolding collect_changes_def using collect_changes_prefix[OF y len, of d] by simp

lemma analyze_run:
  assumes ss: "0 < sample_sets" and nv: "0 \<le> num_vars (dicts w ! p)"
    and shape: "real (length (arrays w ! y)) / real_of_int sample_sets
                  = real_of_int (num_vars (dicts w ! p) + 1)"
    and y: "y < length (arrays w)" and seed: "\<not> truthy seed"
  defines "d \<equiv> nat (num_vars (dicts w ! p))" and "n \<equiv> nat sample_sets"
  defines "rows \<equiv> map (\<lambda>i. effect d n (arrays w ! y) (i + 1)) [0..<d]"
  defines "bv \<equiv> np_var (baselines d n (arrays w ! y))"
  defines "w2 \<equiv> w\<lparr>arrays := arrays w @ [concat rows]\<rparr>"
  shows "analyze ppf p y sample_sets num_resamples conf_level seed w =
           (case compute_radial_si_confidence ppf (d, n) rows bv sample_sets num_resamples
                   conf_level (rng w) of
              (Inl e, g') \<Rightarrow> (Inl e, w2\<lparr>rng := g'\<rparr>)
            | (Inr conf, g') \<Rightarrow>
                (Inr \<lparr>Si_names = names (dicts w ! p),
                      Si_ST = map (\<lambda>i. np_div (jansen_formula (effect d n (arrays w ! y) (i + 1)) n) bv)
                                  [0..<d],
                      Si_ST_conf = conf\<rparr>,
                 w2\<lparr>rng := g'\<rparr>))"
proof -
  have len: "length (arrays w ! y) = n * (d + 1)"
    unfolding n_def d_def by (rule shape_nat[OF ss nv shape])
  have loop: "collect_changes (length (arrays w)) y d n
                (w\<lparr>arrays := arrays w @ [replicate (d * n) 0]\<rparr>) = w2"
    unfolding w2_def rows_def by (rule collect_changes_result[OF y len])
  have base: "strided 0 (Suc d) (arrays w ! y) = baselines d n (arrays w ! y)"
    using strided_baselines[OF len] by simp
  have rows_shape: "length rows = d" "\<forall>r\<in>set rows. length r = n"
    by (auto simp: rows_def length_effect)
  have mr: "mat_rows d n (concat rows) = rows"
    by (rule mat_rows_concat[OF rows_shape])
  have je: "jansen_estimator sample_sets d (np_T d n rows)
              = Inr (map (\<lambda>j. jansen_formula (rows ! j) n) [0..<d])"
    unfolding n_def using jansen_estimator_rows[of sample_sets rows d] ss rows_shape
    by (simp add: n_def)
  have st: "map (\<lambda>j. np_div (jansen_formula (rows ! j) n) bv) [0..<d]
              = map (\<lambda>i. np_div (jansen_formula (effect d n (arrays w ! y) (i + 1)) n) bv) [0..<d]"
    by (simp add: rows_def)
  have w2_read: "arrays w2 ! length (arrays w) = concat rows" "dicts w2 = dicts w" "rng w2 = rng w"
    by (simp_all add: w2_def)
  have y_read: "(arrays w @ [replicate (d * n) 0]) ! y = arrays w ! y"
    using y by (simp add: nth_append)
  have guards: "sample_sets \<noteq> 0" "\<not> (num_vars (dicts w ! p) < 0 \<or> sample_sets < 0)"
    using ss nv by simp_all
  have rn: "\<And>x. x < d \<Longrightarrow> rows ! x = effect d n (arrays w ! y) (Suc x)"
    by (simp add: rows_def)
  obtain res g' where c: "compute_radial_si_confidence ppf (d, n) rows bv sample_sets
                              num_resamples conf_level (rng w) = (res, g')"
    by (cases "compute_radial_si_confidence ppf (d, n) rows bv sample_sets
                 num_resamples conf_level (rng w)")
  show ?thesis
    unfolding analyze_def Let_def np_empty_def
    using guards shape seed
    by (cases res)
       (simp_all add: d_def[symmetric] n_def[symmetric] y_read base loop w2_read mr je st
                  bv_def[symmetric] c rn)
qed

section \<open>What \<open>analyze\<close> returns\<close>

lemma shape_ok_positive:
  assumes "shape_ok len ss nv" and "0 \<le> nv"
  shows "0 < ss"
proof (rule ccontr)
  assume "\<not> 0 < ss"
  with assms(1) have neg: "ss < 0" by (simp add: shape_ok_def)
  then have "real len / real_of_int ss \<le> 0" by (simp add: divide_nonneg_neg divide_le_0_iff)
  moreover have "0 < real_of_int (nv + 1)" using assms(2) by simp
  ultimately show False using assms(1) by (simp add: shape_ok_def)
qed

text \<open>The outcomes of \<open>analyze\<close>, guard by guard.\<close>

lemma analyze_zero_sets:
  "analyze ppf p y 0 num_resamples conf_level seed w = (Inl ZeroDivisionError, w)"
  by (simp add: analyze_def)

lemma analyze_shape_error:
  "ss \<noteq> 0 \<Longrightarrow> \<not> shape_ok (length (arrays w ! y)) ss (num_vars (dicts w ! p)) \<Longrightarrow>
   analyze ppf p y ss num_resamples conf_level seed w = (Inl AssertionError, w)"
  by (simp add: analyze_def shape_ok_def)

lemma analyze_seed_error:
  "shape_ok (length (arrays w ! y)) ss (num_vars (dicts w ! p)) \<Longrightarrow> truthy seed \<Longrightarrow>
   analyze ppf p y ss num_resamples conf_level seed w = (Inl AttributeError, w)"
  by (simp add: analyze_def shape_ok_def)

lemma analyze_outcome:
  assumes ok: "shape_ok (length (arrays w ! y)) ss (num_vars (dicts w ! p))"
    and nv: "0 \<le> num_vars (dicts w ! p)" and y: "y < length (arrays w)"
    and seed: "\<not> truthy seed"
  shows "fst (analyze ppf p y ss num_resamples conf_level seed w) =
           (if \<not> (0 < conf_level \<and> conf_level < 1) \<or> num_resamples < 0 then Inl ValueError
            else Inr \<lparr>Si_names = names (dicts w ! p),
                      Si_ST = map (\<lambda>i. np_div (jansen_formula
                                   (effect (nat (num_vars (dicts w ! p))) (nat ss) (arrays w ! y) (i + 1))
                                   (nat ss))
                                 (np_var (baselines (nat (num_vars (dicts w ! p))) (nat ss) (arrays w ! y))))
                                  [0..<nat (num_vars (dicts w ! p))],
                      Si_ST_conf = projr (fst
                         (compute_radial_si_confidence ppf (nat (num_vars (dicts w ! p)), nat ss)
                            (map (\<lambda>i. effect (nat (num_vars (dicts w ! p))) (nat ss) (arrays w ! y) (i + 1))
                                 [0..<nat (num_vars (dicts w ! p))])
                            (np_var (baselines (nat (num_vars (dicts w ! p))) (nat ss) (arrays w ! y)))
                            ss num_resamples conf_level (rng w)))\<rparr>)"
proof -
  have ss: "0 < ss" by (rule shape_ok_positive[OF ok nv])
  have shape: "real (length (arrays w ! y)) / real_of_int ss
                 = real_of_int (num_vars (dicts w ! p) + 1)"
    using ok by (simp add: shape_ok_def)
  note run = analyze_run[OF ss nv shape y seed, of ppf num_resamples conf_level]
  show ?thesis
  proof (cases "\<not> (0 < conf_level \<and> conf_level < 1)")
    case True
    then show ?thesis
      unfolding run using confidence_invalid_level[OF True] by simp
  next
    case False
    then have c: "0 < conf_level" "conf_level < 1" by simp_all
    show ?thesis
    proof (cases "num_resamples < 0")
      case True
      then show ?thesis
        unfolding run using confidence_negative_resamples[OF c True] by simp
    next
      case False
      then have r: "0 \<le> num_resamples" by simp
      have n: "0 < nat ss" using ss by simp
      from confidence_returns[OF c r ss n]
      obtain conf where "compute_radial_si_confidence ppf (nat (num_vars (dicts w ! p)), nat ss)
          (map (\<lambda>i. effect (nat (num_vars (dicts w ! p))) (nat ss) (arrays w ! y) (i + 1))
               [0..<nat (num_vars (dicts w ! p))])
          (np_var (baselines (nat (num_vars (dicts w ! p))) (nat ss) (arrays w ! y)))
          ss num_resamples conf_level (rng w) = (Inr conf, rng_drop (nat num_resamples * nat ss) (rng w))"
        by blast
      then show ?thesis
        unfolding run using c False by simp
    qed
  qed
qed

lemma world_example_facts:
  "length (arrays world_example) = 1" "arrays world_example ! 0 = [10, 12, 9, 20, 22, 21]"
  "num_vars (dicts world_example ! 0) = 2" "rng world_example = rng_example"
  "names (dicts world_example ! 0) = [''x1'', ''x2'']"
  by (simp_all add: world_example_def problem_example_def)

lemma shape_ok_example: "shape_ok (length (arrays world_example ! 0)) 2 (num_vars (dicts world_example ! 0))"
  by (simp add: world_example_facts shape_ok_def)

lemma confidence_no_assertion:
  "fst (compute_radial_si_confidence ppf (d, n) si bv N num_resamples conf_level g)
     \<noteq> Inl AssertionError"
  by (simp add: compute_radial_si_confidence_def np_random_randint_def jansen_estimator3_def
                Let_def split: prod.splits sum.splits)

lemma analyze_past_assertion:
  assumes "shape_ok (length (arrays w ! y)) ss (num_vars (dicts w ! p))"
  shows "fst (analyze ppf p y ss num_resamples conf_level seed w) \<noteq> Inl AssertionError"
proof -
  obtain r g' where c: "compute_radial_si_confidence ppf (nat (num_vars (dicts w ! p)), nat ss)
        (mat_rows (nat (num_vars (dicts w ! p))) (nat ss)
           (arrays (collect_changes (length (arrays w)) y (nat (num_vars (dicts w ! p))) (nat ss)
                      (w\<lparr>arrays := arrays w @ [replicate (nat (num_vars (dicts w ! p)) * nat ss) 0]\<rparr>))
              ! length (arrays w)))
        (np_var (strided 0 (nat (num_vars (dicts w ! p)) + 1)
                  ((arrays w @ [replicate (nat (num_vars (dicts w ! p)) * nat ss) 0]) ! y)))
        ss num_resamples conf_level
        (rng (collect_changes (length (arrays w)) y (nat (num_vars (dicts w ! p))) (nat ss)
                (w\<lparr>arrays := arrays w @ [replicate (nat (num_vars (dicts w ! p)) * nat ss) 0]\<rparr>)))
      = (r, g')"
    by (rule prod.exhaust)
  have "r \<noteq> Inl AssertionError"
    using confidence_no_assertion[of ppf "nat (num_vars (dicts w ! p))" "nat ss"] c
    by (metis fst_conv)
  then show ?thesis
    using assms c
    by (cases r) (simp_all add: analyze_def shape_ok_def Let_def np_empty_def jansen_estimator_def)
qed

text \<open>
  Claim C10. \<open>analyze\<close> does not modify its inputs: after the call, whether it returned a
  result or failed, every array buffer that existed before the call holds what it held (the
  buffer of \<open>Y\<close> among them; the only buffer written is the fresh one of \<open>st\<close>), and
  every problem dict (\<open>num_vars\<close>, \<open>names\<close>, \<open>bounds\<close>, \<open>dists\<close>) is unchanged.
\<close>

theorem analyze_preserves_inputs:
  "take (length (arrays w))
        (arrays (snd (analyze ppf p y sample_sets num_resamples conf_level seed w))) = arrays w
   \<and> dicts (snd (analyze ppf p y sample_sets num_resamples conf_level seed w)) = dicts w"
proof -
  let ?d = "nat (num_vars (dicts w ! p))" and ?n = "nat sample_sets"
  let ?w1 = "w\<lparr>arrays := arrays w @ [replicate (?d * ?n) 0]\<rparr>"
  let ?w2 = "collect_changes (length (arrays w)) y ?d ?n ?w1"
  have fr: "take (length (arrays w)) (arrays ?w2) = arrays w" "dicts ?w2 = dicts w"
    using collect_changes_frame[of "length (arrays w)" "length (arrays w)" y ?d ?n ?w1]
    by simp_all
  obtain r g' where c: "compute_radial_si_confidence ppf (?d, ?n)
        (mat_rows ?d ?n (arrays ?w2 ! length (arrays w)))
        (np_var (strided 0 (?d + 1) (arrays ?w1 ! y)))
        sample_sets num_resamples conf_level (rng ?w2) = (r, g')"
    by (rule prod.exhaust)
  show ?thesis
    using fr c
    by (cases r) (simp_all add: analyze_def Let_def np_empty_def jansen_estimator_def)
qed

text \<open>
  Claim C6, as amended. For \<open>sample_sets \<noteq> 0\<close>, \<open>analyze\<close> fails with the shape-mismatch
  error (the \<open>AssertionError\<close> of its first statement), with no result and nothing
  changed, if and only if \<open>Y.length / sample_sets\<close> is not \<open>D + 1\<close> exactly; where the
  equality holds the check passes. (For \<open>sample_sets = 0\<close> the quotient itself raises
  \<open>ZeroDivisionError\<close>.)
\<close>

theorem analyze_shape_check:
  assumes "sample_sets \<noteq> 0"
  shows "(fst (analyze ppf p y sample_sets num_resamples conf_level seed w) = Inl AssertionError
            \<longleftrightarrow> \<not> shape_ok (length (arrays w ! y)) sample_sets (num_vars (dicts w ! p)))
         \<and> (fst (analyze ppf p y sample_sets num_resamples conf_level seed w) = Inl AssertionError
            \<longrightarrow> snd (analyze ppf p y sample_sets num_resamples conf_level seed w) = w)"
proof (cases "shape_ok (length (arrays w ! y)) sample_sets (num_vars (dicts w ! p))")
  case True
  then show ?thesis using analyze_past_assertion[OF True] by simp
next
  case False
  then show ?thesis using analyze_shape_error[OF assms False] by simp
qed

theorem analyze_shape_check_witness:
  "(4::int) \<noteq> 0
   \<and> \<not> shape_ok (length (arrays world_example ! 0)) 4 (num_vars (dicts world_example ! 0))
   \<and> fst (analyze ppf_example 0 0 4 1000 (19/20) None world_example) = Inl AssertionError
   \<and> snd (analyze ppf_example 0 0 4 1000 (19/20) None world_example) = world_example"
proof -
  have n: "\<not> shape_ok (length (arrays world_example ! 0)) 4 (num_vars (dicts world_example ! 0))"
    by (simp add: world_example_facts shape_ok_def)
  show ?thesis
    using analyze_shape_check[of 4 ppf_example 0 0 1000 "19/20" None world_example] n by simp
qed

theorem analyze_zero_sets_counterexample:
  "\<not> (fst (analyze ppf_example 0 0 0 1000 (19/20) None world_example) = Inl AssertionError
        \<longleftrightarrow> \<not> shape_ok (length (arrays world_example ! 0)) 0 (num_vars (dicts world_example ! 0)))
   \<and> fst (analyze ppf_example 0 0 0 1000 (19/20) None world_example) = Inl ZeroDivisionError"
  by (simp add: analyze_zero_sets shape_ok_def)

text \<open>
  Claim C4 says that a call of \<open>analyze\<close> with a non-zero seed completes and is
  reproducible. In the code every such call whose inputs pass the shape check stops at
  \<open>np.random.set_seed(seed)\<close> with \<open>AttributeError\<close>, before anything is computed.
\<close>

theorem analyze_seeded_raises:
  assumes "shape_ok (length (arrays w ! y)) sample_sets (num_vars (dicts w ! p))"
    and "s \<noteq> 0"
  shows "analyze ppf p y sample_sets num_resamples conf_level (Some s) w = (Inl AttributeError, w)"
  using analyze_seed_error[OF assms(1), of "Some s"] assms(2) by (simp add: truthy_def)

theorem analyze_seeded_raises_witness:
  "shape_ok (length (arrays world_example ! 0)) 2 (num_vars (dicts world_example ! 0))
   \<and> (1::int) \<noteq> 0
   \<and> analyze ppf_example 0 0 2 1000 (19/20) (Some 1) world_example
       = (Inl AttributeError, world_example)"
  using analyze_seeded_raises[OF shape_ok_example, of 1 ppf_example 1000 "19/20"] shape_ok_example
  by simp

text \<open>
  Claim C7, as amended. For a call of \<open>analyze\<close> whose inputs satisfy the shape
  precondition, with \<open>num_vars \<ge> 0\<close>, no seed (\<open>None\<close> or \<open>0\<close>) and
  \<open>num_resamples \<ge> 0\<close>, the call fails with \<open>ValueError\<close>, and returns no result, if
  and only if \<open>conf_level\<close> lies outside the open interval \<open>(0, 1)\<close>.
\<close>

theorem analyze_conf_level_check:
  assumes "shape_ok (length (arrays w ! y)) sample_sets (num_vars (dicts w ! p))"
    and "0 \<le> num_vars (dicts w ! p)" and "y < length (arrays w)"
    and "\<not> truthy seed" and "0 \<le> num_resamples"
  shows "fst (analyze ppf p y sample_sets num_resamples conf_level seed w) = Inl ValueError
           \<longleftrightarrow> \<not> (0 < conf_level \<and> conf_level < 1)"
  using analyze_outcome[OF assms(1-4), of ppf num_resamples conf_level] assms(5) by auto

theorem analyze_conf_level_check_witness:
  "shape_ok (length (arrays world_example ! 0)) 2 (num_vars (dicts world_example ! 0))
   \<and> 0 \<le> num_vars (dicts world_example ! 0) \<and> 0 < length (arrays world_example)
   \<and> \<not> truthy None \<and> (0::int) \<le> 1000
   \<and> \<not> (0 < (3/2::real) \<and> (3/2::real) < 1)
   \<and> fst (analyze ppf_example 0 0 2 1000 (3/2) None world_example) = Inl ValueError"
proof -
  have h: "0 \<le> num_vars (dicts world_example ! 0)" "0 < length (arrays world_example)"
    "\<not> truthy None" "(0::int) \<le> 1000"
    by (simp_all add: world_example_facts truthy_def)
  show ?thesis
    using analyze_conf_level_check[OF shape_ok_example h, of ppf_example "3/2"] shape_ok_example h
    by simp
qed

theorem analyze_negative_resamples_counterexample:
  "\<not> (fst (analyze ppf_example 0 0 2 (- 1) (19/20) None world_example) = Inl ValueError
        \<longleftrightarrow> \<not> (0 < (19/20::real) \<and> (19/20::real) < 1))"
proof -
  have h: "0 \<le> num_vars (dicts world_example ! 0)" "0 < length (arrays world_example)"
    "\<not> truthy None"
    by (simp_all add: world_example_facts truthy_def)
  show ?thesis
    using analyze_outcome[OF shape_ok_example h, of ppf_example "- 1" "19/20"] by simp
qed

lemma np_var_positive_length:
  assumes "np_var xs = Finite v" and "0 < v"
  shows "2 \<le> length xs"
proof (cases xs)
  case Nil
  with assms show ?thesis by (simp add: np_var_def)
next
  case (Cons x ys)
  show ?thesis
  proof (cases ys)
    case Nil
    with Cons assms show ?thesis by (simp add: np_var_def np_mean_def)
  next
    case (Cons z zs)
    with \<open>xs = x # ys\<close> show ?thesis by simp
  qed
qed

lemma np_var_nonempty:
  "xs \<noteq> [] \<Longrightarrow> np_var xs = Finite ((\<Sum>x\<leftarrow>xs. (x - np_mean xs)\<^sup>2) / real (length xs))"
  by (simp add: np_var_def)

lemma upt_0_2: "[0..<2] = [0, 1]"
  by (simp add: eval_nat_numeral)

lemma example_values:
  "baselines 2 2 [10, 12, 9, 20, 22, 21] = [10, 20]"
  "effect 2 2 [10, 12, 9, 20, 22, 21] 1 = [- 2, - 2]"
  "effect 2 2 [10, 12, 9, 20, 22, 21] 2 = [1, - 1]"
  "effect 2 2 [10, 12, 9, 20, 22, 21] (Suc 0) = [- 2, - 2]"
  "effect 2 2 [10, 12, 9, 20, 22, 21] (Suc (Suc 0)) = [1, - 1]"
  by (simp_all add: baselines_def effect_def block_entry_def upt_0_2)

lemma example_variances:
  "np_var [10, 20] = Finite 25" "sample_variance [10, 20] = 50"
  by (simp_all add: np_var_def sample_variance_def np_mean_def)

lemma example_jansen:
  "jansen_formula [- 2, - 2] 2 = 2" "jansen_formula [1, - 1] 2 = 1 / 2"
  by (simp_all add: jansen_formula_def)

text \<open>
  Claim C1, as amended. For a \<open>Y\<close> that satisfies the shape precondition, whenever
  \<open>analyze\<close> returns a result its \<open>ST\<close> has \<open>D\<close> entries and, for each dimension
  \<open>i = 1..D\<close>, \<open>ST_i = (sum over the replicates of (Y_base - Y_perturbed_i)^2) /
  (2 * sample_sets) / base_variance\<close>, with \<open>Y_base\<close> the position-0 entries and
  \<open>Y_perturbed_i\<close> the position-\<open>i\<close> entries of the contiguous \<open>(D + 1)\<close>-blocks of
  \<open>Y\<close>, and \<open>base_variance\<close> the population variance of \<open>Y_base\<close>: the sum of squared
  deviations from the mean over \<open>sample_sets\<close> (not over \<open>sample_sets - 1\<close>). The
  division is numpy's (\<open>inf\<close> or \<open>nan\<close> for a zero variance). The call returns a result
  whenever no seed is given, \<open>conf_level\<close> is inside \<open>(0, 1)\<close> and
  \<open>num_resamples \<ge> 0\<close>.
\<close>

theorem analyze_total_effect:
  assumes "shape_ok (length (arrays w ! y)) sample_sets (num_vars (dicts w ! p))"
    and "0 \<le> num_vars (dicts w ! p)" and "y < length (arrays w)"
  shows "let d = nat (num_vars (dicts w ! p)); n = nat sample_sets; Y = arrays w ! y;
             Y_base = baselines d n Y
         in np_var Y_base = Finite ((\<Sum>x\<leftarrow>Y_base. (x - np_mean Y_base)\<^sup>2) / real n)
            \<and> (\<forall>res. fst (analyze ppf p y sample_sets num_resamples conf_level seed w) = Inr res
                  \<longrightarrow> length (Si_ST res) = d
                      \<and> (\<forall>i. 1 \<le> i \<and> i \<le> d \<longrightarrow>
                            Si_ST res ! (i - 1)
                              = np_div ((\<Sum>x\<leftarrow>effect d n Y i. x\<^sup>2) / (2 * real n)) (np_var Y_base)))
            \<and> (\<not> truthy seed \<and> 0 < conf_level \<and> conf_level < 1 \<and> 0 \<le> num_resamples
                  \<longrightarrow> (\<exists>res. fst (analyze ppf p y sample_sets num_resamples conf_level seed w)
                              = Inr res))"
proof -
  let ?d = "nat (num_vars (dicts w ! p))" and ?n = "nat sample_sets" and ?Y = "arrays w ! y"
  have ss: "0 < sample_sets" by (rule shape_ok_positive[OF assms(1,2)])
  have var: "np_var (baselines ?d ?n ?Y)
               = Finite ((\<Sum>x\<leftarrow>baselines ?d ?n ?Y. (x - np_mean (baselines ?d ?n ?Y))\<^sup>2) / real ?n)"
    using ss np_var_nonempty[of "baselines ?d ?n ?Y"] by (simp add: baselines_def)
  have st: "length (Si_ST res) = ?d
              \<and> (\<forall>i. 1 \<le> i \<and> i \<le> ?d \<longrightarrow>
                    Si_ST res ! (i - 1)
                      = np_div ((\<Sum>x\<leftarrow>effect ?d ?n ?Y i. x\<^sup>2) / (2 * real ?n))
                               (np_var (baselines ?d ?n ?Y)))"
    if r: "fst (analyze ppf p y sample_sets num_resamples conf_level seed w) = Inr res" for res
  proof (cases "truthy seed")
    case True
    then show ?thesis using analyze_seed_error[OF assms(1) True, of ppf num_resamples conf_level] r
      by simp
  next
    case False
    note out = analyze_outcome[OF assms False, of ppf num_resamples conf_level]
    from out r have "Si_ST res = map (\<lambda>i. np_div (jansen_formula (effect ?d ?n ?Y (i + 1)) ?n)
                                       (np_var (baselines ?d ?n ?Y))) [0..<?d]"
      by (auto split: if_splits)
    then show ?thesis by (auto simp: jansen_formula_def)
  qed
  have ex: "\<exists>res. fst (analyze ppf p y sample_sets num_resamples conf_level seed w) = Inr res"
    if "\<not> truthy seed" "0 < conf_level" "conf_level < 1" "0 \<le> num_resamples"
    using analyze_outcome[OF assms that(1), of ppf num_resamples conf_level] that by simp
  show ?thesis unfolding Let_def using var st ex by blast
qed

theorem analyze_total_effect_witness:
  "shape_ok (length (arrays world_example ! 0)) 2 (num_vars (dicts world_example ! 0))
   \<and> 0 \<le> num_vars (dicts world_example ! 0) \<and> 0 < length (arrays world_example)
   \<and> \<not> truthy None \<and> 0 < (19/20::real) \<and> (19/20::real) < 1 \<and> (0::int) \<le> 1000
   \<and> np_var (baselines 2 2 (arrays world_example ! 0)) = Finite 25
   \<and> (\<exists>res. fst (analyze ppf_example 0 0 2 1000 (19/20) None world_example) = Inr res
          \<and> length (Si_ST res) = 2
          \<and> Si_ST res ! 0 = Finite (2 / 25) \<and> Si_ST res ! 1 = Finite (1 / 50))"
proof -
  have h: "0 \<le> num_vars (dicts world_example ! 0)" "0 < length (arrays world_example)"
    by (simp_all add: world_example_facts)
  have g: "\<not> truthy None" "0 < (19/20::real)" "(19/20::real) < 1" "(0::int) \<le> 1000"
    by (simp_all add: truthy_def)
  note t = analyze_total_effect[OF shape_ok_example h, of ppf_example 1000 "19/20" None,
             unfolded Let_def world_example_facts]
  from t g obtain res where
    r: "fst (analyze ppf_example 0 0 2 1000 (19/20) None world_example) = Inr res"
    by blast
  from t r have len: "length (Si_ST res) = nat 2"
    and at: "\<And>i. 1 \<le> i \<and> i \<le> nat 2 \<Longrightarrow> Si_ST res ! (i - 1)
               = np_div ((\<Sum>x\<leftarrow>effect (nat 2) (nat 2) [10, 12, 9, 20, 22, 21] i. x\<^sup>2)
                          / (2 * real (nat 2)))
                        (np_var (baselines (nat 2) (nat 2) [10, 12, 9, 20, 22, 21]))"
    by blast+
  have v: "np_var (baselines 2 2 (arrays world_example ! 0)) = Finite 25"
    by (simp add: world_example_facts example_values example_variances)
  have s0: "Si_ST res ! 0 = Finite (2 / 25)"
    using at[of 1] by (simp add: example_values example_variances np_div_def)
  have s1: "Si_ST res ! 1 = Finite (1 / 50)"
    using at[of 2] by (simp add: example_values example_variances np_div_def)
  show ?thesis using shape_ok_example h g v r len s0 s1 by auto
qed

theorem analyze_sample_variance_counterexample:
  "analyze_ST ppf_example 0 0 2 1000 (19/20) None world_example
     = Inr [Finite (2/25), Finite (1/50)]
   \<and> spec_ST 2 2 (arrays world_example ! 0) 1 = Finite (1/25)
   \<and> spec_ST 2 2 (arrays world_example ! 0) 2 = Finite (1/100)
   \<and> analyze_ST ppf_example 0 0 2 1000 (19/20) None world_example
     \<noteq> Inr [spec_ST 2 2 (arrays world_example ! 0) 1, spec_ST 2 2 (arrays world_example ! 0) 2]"
proof -
  have h: "0 \<le> num_vars (dicts world_example ! 0)" "0 < length (arrays world_example)"
    "\<not> truthy None"
    by (simp_all add: world_example_facts truthy_def)
  have a: "analyze_ST ppf_example 0 0 2 1000 (19/20) None world_example
          = Inr [Finite (2/25), Finite (1/50)]"
    unfolding analyze_ST_def analyze_outcome[OF shape_ok_example h, of ppf_example 1000 "19/20"]
    by (simp add: world_example_facts example_values example_variances example_jansen np_div_def
                  upt_0_2)
  have s1: "spec_ST 2 2 (arrays world_example ! 0) 1 = Finite (1/25)"
    by (simp add: spec_ST_def world_example_facts example_values example_variances example_jansen
                  np_div_def)
  have s2: "spec_ST 2 2 (arrays world_example ! 0) 2 = Finite (1/100)"
    by (simp add: spec_ST_def world_example_facts example_values example_variances example_jansen
                  np_div_def)
  show ?thesis unfolding a s1 s2 by simp
qed

lemma np_div_finite: "b \<noteq> 0 \<Longrightarrow> np_div v (Finite b) = Finite (v / b)"
  by (simp add: np_div_def)

lemma confidence_nonneg:
  assumes c: "0 < conf_level" "conf_level < 1" and r: "0 \<le> num_resamples"
    and N: "2 \<le> N" and n: "0 < n" and b: "0 < b"
    and ppf: "0 \<le> ppf (0.5 + conf_level / 2.0)"
  shows "\<forall>x\<in>set (projr (fst (compute_radial_si_confidence ppf (d, n) si (Finite b) N
                               num_resamples conf_level g))).
           \<exists>v. x = Finite v \<and> 0 \<le> v"
proof -
  have N0: "0 < N" using N by simp
  from confidence_returns[OF c r N0 n, of ppf d si "Finite b" g]
  obtain conf where eq: "compute_radial_si_confidence ppf (d, n) si (Finite b) N num_resamples
                           conf_level g = (Inr conf, rng_drop (nat num_resamples * nat N) g)"
    and len: "length conf = d"
    and cols: "\<forall>j<d. \<exists>col. conf ! j = np_scale (ppf (0.5 + conf_level / 2.0)) (np_std_ddof1 col)
                 \<and> length col = nat N \<and> (\<forall>x\<in>set col. \<exists>v. x = np_div v (Finite b))"
    by blast
  note q = ppf
  have "\<exists>v. conf ! j = Finite v \<and> 0 \<le> v" if "j < d" for j
  proof -
    from cols that obtain col where col:
      "conf ! j = np_scale (ppf (0.5 + conf_level / 2.0)) (np_std_ddof1 col)"
      "length col = nat N" "\<forall>x\<in>set col. \<exists>v. x = np_div v (Finite b)"
      by blast
    have "list_all is_Finite col"
      using col(3) b by (auto simp: list_all_iff np_div_finite is_Finite_def)
    moreover have "2 \<le> length col" using col(2) N by simp
    ultimately obtain s where s: "np_std_ddof1 col = Finite s" "0 \<le> s"
      using np_std_ddof1_nonneg by blast
    show ?thesis using col(1) s q by (simp add: np_scale_def)
  qed
  then have "\<forall>x\<in>set conf. \<exists>v. x = Finite v \<and> 0 \<le> v"
    using len by (auto simp: in_set_conv_nth)
  then show ?thesis by (simp add: eq)
qed

text \<open>
  Claim C9. For a \<open>Y\<close> that satisfies the shape precondition, with \<open>base_variance > 0\<close>
  and \<open>conf_level\<close> inside \<open>(0, 1)\<close>, every returned \<open>ST_i\<close> and every returned
  \<open>ST_conf_i\<close> is a finite number \<open>\<ge> 0\<close>; and the call does return whenever no seed
  is given and \<open>num_resamples \<ge> 0\<close>. The normal quantile function \<open>norm.ppf\<close> is a
  parameter; of it the proof uses that its value at \<open>0.5 + conf_level / 2\<close>, a point of
  \<open>(1/2, 1)\<close>, is not negative.
\<close>

theorem analyze_indices_nonnegative:
  assumes "shape_ok (length (arrays w ! y)) sample_sets (num_vars (dicts w ! p))"
    and "0 \<le> num_vars (dicts w ! p)" and "y < length (arrays w)"
    and "np_var (baselines (nat (num_vars (dicts w ! p))) (nat sample_sets) (arrays w ! y))
           = Finite base_variance"
    and "0 < base_variance"
    and "0 < conf_level" and "conf_level < 1"
    and "0 \<le> ppf (0.5 + conf_level / 2.0)"
  shows "(\<forall>res. fst (analyze ppf p y sample_sets num_resamples conf_level seed w) = Inr res
            \<longrightarrow> (\<forall>x\<in>set (Si_ST res). \<exists>v. x = Finite v \<and> 0 \<le> v)
                \<and> (\<forall>x\<in>set (Si_ST_conf res). \<exists>v. x = Finite v \<and> 0 \<le> v))
         \<and> (\<not> truthy seed \<and> 0 \<le> num_resamples
            \<longrightarrow> (\<exists>res. fst (analyze ppf p y sample_sets num_resamples conf_level seed w) = Inr res))"
proof -
  let ?d = "nat (num_vars (dicts w ! p))" and ?n = "nat sample_sets" and ?Y = "arrays w ! y"
  have two: "2 \<le> length (baselines ?d ?n ?Y)"
    by (rule np_var_positive_length[OF assms(4,5)])
  then have N: "2 \<le> sample_sets" and n: "0 < ?n" by (simp_all add: baselines_def)
  have props: "(\<forall>x\<in>set (Si_ST res). \<exists>v. x = Finite v \<and> 0 \<le> v)
                \<and> (\<forall>x\<in>set (Si_ST_conf res). \<exists>v. x = Finite v \<and> 0 \<le> v)"
    if r: "fst (analyze ppf p y sample_sets num_resamples conf_level seed w) = Inr res" for res
  proof (cases "truthy seed")
    case True
    then show ?thesis using analyze_seed_error[OF assms(1) True, of ppf num_resamples conf_level] r
      by simp
  next
    case False
    note out = analyze_outcome[OF assms(1-3) False, of ppf num_resamples conf_level]
    from out r have nr: "0 \<le> num_resamples" by (auto split: if_splits)
    from out r have st: "Si_ST res = map (\<lambda>i. np_div (jansen_formula (effect ?d ?n ?Y (i + 1)) ?n)
                                       (Finite base_variance)) [0..<?d]"
      and cf: "Si_ST_conf res = projr (fst (compute_radial_si_confidence ppf (?d, ?n)
                  (map (\<lambda>i. effect ?d ?n ?Y (i + 1)) [0..<?d]) (Finite base_variance)
                  sample_sets num_resamples conf_level (rng w)))"
      by (auto simp: assms(4) split: if_splits)
    have "\<forall>x\<in>set (Si_ST res). \<exists>v. x = Finite v \<and> 0 \<le> v"
      unfolding st using assms(5) jansen_formula_nonneg by (auto simp: np_div_finite)
    moreover have "\<forall>x\<in>set (Si_ST_conf res). \<exists>v. x = Finite v \<and> 0 \<le> v"
      unfolding cf
      by (rule confidence_nonneg[where ppf = ppf and conf_level = conf_level,
                                 OF assms(6,7) nr N n assms(5,8)])
    ultimately show ?thesis by blast
  qed
  have ex: "\<exists>res. fst (analyze ppf p y sample_sets num_resamples conf_level seed w) = Inr res"
    if "\<not> truthy seed" "0 \<le> num_resamples"
    using analyze_outcome[OF assms(1-3) that(1), of ppf num_resamples conf_level] that assms(6,7)
    by simp
  show ?thesis using props ex by blast
qed

theorem analyze_indices_nonnegative_witness:
  "shape_ok (length (arrays world_example ! 0)) 2 (num_vars (dicts world_example ! 0))
   \<and> 0 \<le> num_vars (dicts world_example ! 0) \<and> 0 < length (arrays world_example)
   \<and> np_var (baselines (nat (num_vars (dicts world_example ! 0))) (nat 2)
               (arrays world_example ! 0)) = Finite 25
   \<and> (0::real) < 25 \<and> 0 < (19/20::real) \<and> (19/20::real) < 1
   \<and> 0 \<le> ppf_example (0.5 + (19/20) / 2.0)
   \<and> \<not> truthy None \<and> (0::int) \<le> 1000
   \<and> (\<exists>res. fst (analyze ppf_example 0 0 2 1000 (19/20) None world_example) = Inr res
          \<and> (\<forall>x\<in>set (Si_ST res). \<exists>v. x = Finite v \<and> 0 \<le> v)
          \<and> (\<forall>x\<in>set (Si_ST_conf res). \<exists>v. x = Finite v \<and> 0 \<le> v))"
proof -
  have h: "0 \<le> num_vars (dicts world_example ! 0)" "0 < length (arrays world_example)"
    by (simp_all add: world_example_facts)
  have v: "np_var (baselines (nat (num_vars (dicts world_example ! 0))) (nat 2)
               (arrays world_example ! 0)) = Finite 25"
    by (simp add: world_example_facts example_values example_variances)
  have c: "(0::real) < 25" "0 < (19/20::real)" "(19/20::real) < 1" by simp_all
  have q: "0 \<le> ppf_example (0.5 + (19/20) / 2.0)" by (simp add: ppf_example_def)
  have g: "\<not> truthy None" "(0::int) \<le> 1000" by (simp_all add: truthy_def)
  note t = analyze_indices_nonnegative[where w = world_example and y = 0 and p = 0
             and sample_sets = 2 and ppf = ppf_example and conf_level = "19/20"
             and base_variance = 25 and num_resamples = 1000 and seed = None,
             OF shape_ok_example h v c q]
  from t g obtain res where
    r: "fst (analyze ppf_example 0 0 2 1000 (19/20) None world_example) = Inr res"
    by blast
  with t have "(\<forall>x\<in>set (Si_ST res). \<exists>v. x = Finite v \<and> 0 \<le> v)
          \<and> (\<forall>x\<in>set (Si_ST_conf res). \<exists>v. x = Finite v \<and> 0 \<le> v)"
    by blast
  with r shape_ok_example h v c q g show ?thesis by blast
qed

section \<open>The radial design\<close>

lemma sobol_rows:
  "0 \<le> N \<Longrightarrow> 0 \<le> D \<Longrightarrow>
   sobol_sequence_sample q N D = Inr (map (\<lambda>i. map (\<lambda>k. q i k) [0..<nat D]) [0..<nat N])"
  by (simp add: sobol_sequence_sample_def)

lemma drop_map_upt: "drop k (map f [0..<n]) = map f [k..<n]"
  by (simp add: drop_map)

lemma scale_samples_ok:
  assumes "list_all (\<lambda>(lo, hi). lo < hi) bnds" and "\<forall>row\<in>set params. length row = length bnds"
  shows "scale_samples params bnds = Inr (map (scale_row bnds) params)"
proof -
  have "\<not> list_ex (\<lambda>(lo, hi). lo \<ge> hi) bnds"
    using assms(1) by (auto simp: list_all_iff list_ex_iff)
  moreover have "\<not> list_ex (\<lambda>row. length row \<noteq> length bnds) params"
    using assms(2) by (auto simp: list_ex_iff)
  ultimately show ?thesis by (simp add: scale_samples_def scale_row_def)
qed

lemma length_scaled_point: "length (scaled_point q bnds i) = length bnds"
  by (simp add: scaled_point_def scale_row_def)

lemma radial_base_rows:
  assumes "bounds_ok problem" and "0 \<le> N"
  shows "radial_base q problem N
           = Inr (map (scaled_point q (bounds problem)) [4..<nat N + 4])"
proof -
  have D: "0 \<le> num_vars problem" "nat (num_vars problem) = length (bounds problem)"
    using assms(1) by (auto simp: bounds_ok_def)
  have legal: "list_all (\<lambda>(lo, hi). lo < hi) (bounds problem)"
    using assms(1) by (simp add: bounds_ok_def)
  have R: "nat (N + 4) = nat N + 4" using assms(2) by simp
  have sob: "sobol_sequence_sample q (N + 4) (num_vars problem)
               = Inr (map (\<lambda>i. map (\<lambda>k. q i k) [0..<length (bounds problem)]) [0..<nat N + 4])"
  proof -
    have "0 \<le> N + 4" using assms(2) by simp
    from sobol_rows[OF this D(1), of q] show ?thesis by (simp only: R D)
  qed
  have "scale_samples (map (\<lambda>i. map (\<lambda>k. q i k) [0..<length (bounds problem)]) [4..<nat N + 4])
          (bounds problem)
        = Inr (map (scale_row (bounds problem))
                 (map (\<lambda>i. map (\<lambda>k. q i k) [0..<length (bounds problem)]) [4..<nat N + 4]))"
    by (rule scale_samples_ok[OF legal]) auto
  then show ?thesis
    unfolding radial_base_def Let_def sob
    by (simp only: sum.case drop_map_upt) (simp add: scaled_point_def comp_def)
qed

lemma radial_perturbations_rows:
  assumes "bounds_ok problem" and "0 \<le> N"
  shows "radial_perturbations q problem N
           = Inr (map (scaled_point q (bounds problem)) [nat N + 4..<nat N + 4 + nat N])"
proof -
  have D: "0 \<le> num_vars problem" "nat (num_vars problem) = length (bounds problem)"
    using assms(1) by (auto simp: bounds_ok_def)
  have legal: "list_all (\<lambda>(lo, hi). lo < hi) (bounds problem)"
    using assms(1) by (simp add: bounds_ok_def)
  have R: "nat (N + 4) = nat N + 4" "nat (N + 4 + N) = nat N + 4 + nat N" using assms(2) by simp_all
  have sob: "sobol_sequence_sample q (N + 4 + N) (num_vars problem)
               = Inr (map (\<lambda>i. map (\<lambda>k. q i k) [0..<length (bounds problem)])
                        [0..<nat N + 4 + nat N])"
  proof -
    have "0 \<le> N + 4 + N" using assms(2) by simp
    from sobol_rows[OF this D(1), of q] show ?thesis by (simp only: R D)
  qed
  have "scale_samples (map (\<lambda>i. map (\<lambda>k. q i k) [0..<length (bounds problem)])
                         [nat N + 4..<nat N + 4 + nat N])
          (bounds problem)
        = Inr (map (scale_row (bounds problem))
                 (map (\<lambda>i. map (\<lambda>k. q i k) [0..<length (bounds problem)])
                    [nat N + 4..<nat N + 4 + nat N]))"
    by (rule scale_samples_ok[OF legal]) auto
  then show ?thesis
    unfolding radial_perturbations_def Let_def sob
    by (simp only: sum.case R drop_map_upt) (simp add: scaled_point_def comp_def)
qed

lemma length_radial_block: "length (radial_block base pert) = length pert + 1"
  by (simp add: radial_block_def)

lemma copyto_diag:
  assumes "length base = d" and "length pert = d"
  shows "base # copyto_nonzero (replicate d base) (np_diag pert) = radial_block base pert"
proof -
  have row: "copyto_nonzero (replicate d base) (np_diag pert) ! j
               = map (\<lambda>k. if k = j \<and> pert ! k \<noteq> 0 then pert ! k else base ! k) [0..<d]"
    if j: "j < d" for j
  proof -
    have dj: "np_diag pert ! j = map (\<lambda>k. if k = j then pert ! j else 0) [0..<d]"
      using j assms(2) by (simp add: np_diag_def)
    have "copyto_nonzero (replicate d base) (np_diag pert) ! j
            = map (\<lambda>(dv, sv). if sv \<noteq> 0 then sv else dv) (zip base (np_diag pert ! j))"
      using j assms(2) by (simp add: copyto_nonzero_def np_diag_def)
    also have "\<dots> = map (\<lambda>k. if k = j \<and> pert ! k \<noteq> 0 then pert ! k else base ! k) [0..<d]"
      unfolding dj using assms(1) by (intro nth_equalityI) auto
    finally show ?thesis .
  qed
  have "copyto_nonzero (replicate d base) (np_diag pert)
          = map (\<lambda>j. map (\<lambda>k. if k = j \<and> pert ! k \<noteq> 0 then pert ! k else base ! k) [0..<d])
                [0..<d]"
  proof (rule nth_equalityI)
    show "length (copyto_nonzero (replicate d base) (np_diag pert))
            = length (map (\<lambda>j. map (\<lambda>k. if k = j \<and> pert ! k \<noteq> 0 then pert ! k else base ! k)
                                   [0..<d]) [0..<d])"
      using assms by (simp add: copyto_nonzero_def np_diag_def)
  next
    fix j assume "j < length (copyto_nonzero (replicate d base) (np_diag pert))"
    then have j: "j < d" using assms by (simp add: copyto_nonzero_def np_diag_def)
    then show "copyto_nonzero (replicate d base) (np_diag pert) ! j
                 = map (\<lambda>j. map (\<lambda>k. if k = j \<and> pert ! k \<noteq> 0 then pert ! k else base ! k)
                                [0..<d]) [0..<d] ! j"
      using row[OF j] by simp
  qed
  then show ?thesis using assms by (simp add: radial_block_def)
qed

lemma overlay_block:
  assumes "length b = d" and "length p = d"
  shows "overlay d p (length pre, pre @ replicate (d + 1) b @ rest)
           = (length (pre @ radial_block b p), (pre @ radial_block b p) @ rest)"
proof -
  have S: "pre @ replicate (d + 1) b @ rest = (pre @ [b]) @ replicate d b @ rest" by simp
  have t1: "take (length pre + 1) ((pre @ [b]) @ replicate d b @ rest) = pre @ [b]"
    by simp
  have d1: "drop (length pre + 1) ((pre @ [b]) @ replicate d b @ rest) = replicate d b @ rest"
    by simp
  have t2: "take d (replicate d b @ rest) = replicate d b" by simp
  have d2: "drop (length pre + d + 1) ((pre @ [b]) @ replicate d b @ rest) = rest"
    by simp
  have blk: "(pre @ [b]) @ copyto_nonzero (replicate d b) (np_diag p) @ rest
               = (pre @ radial_block b p) @ rest"
    using copyto_diag[OF assms] by simp
  have len: "length pre + d + 1 = length (pre @ radial_block b p)"
    using assms(2) by (simp add: length_radial_block)
  show ?thesis
    unfolding overlay_def Let_def prod.case S t1 d1 t2 d2 blk by (simp only: len)
qed

lemma overlay_fold:
  assumes "length bases = length perts"
    and "\<forall>p\<in>set perts. length p = d" and "\<forall>b\<in>set bases. length b = d"
  shows "snd (fold (overlay d) perts (length pre, pre @ np_repeat (d + 1) bases))
           = pre @ concat (map (\<lambda>(b, p). radial_block b p) (zip bases perts))"
  using assms
proof (induction perts arbitrary: bases pre)
  case Nil
  then show ?case by (simp add: np_repeat_def)
next
  case (Cons p ps)
  then obtain b bs where bases: "bases = b # bs" by (cases bases) auto
  have lb: "length b = d" and lp: "length p = d" using Cons.prems bases by simp_all
  have rep: "np_repeat (d + 1) bases = replicate (d + 1) b @ np_repeat (d + 1) bs"
    by (simp add: np_repeat_def bases)
  have step: "overlay d p (length pre, pre @ np_repeat (d + 1) bases)
                = (length (pre @ radial_block b p),
                   (pre @ radial_block b p) @ np_repeat (d + 1) bs)"
    unfolding rep by (rule overlay_block[OF lb lp])
  have ih: "snd (fold (overlay d) ps (length (pre @ radial_block b p),
                                   (pre @ radial_block b p) @ np_repeat (d + 1) bs))
          = (pre @ radial_block b p) @ concat (map (\<lambda>(b, p). radial_block b p) (zip bs ps))"
    using Cons.prems bases by (intro Cons.IH) simp_all
  have "snd (fold (overlay d) (p # ps) (length pre, pre @ np_repeat (d + 1) bases))
          = snd (fold (overlay d) ps (overlay d p (length pre, pre @ np_repeat (d + 1) bases)))"
    by simp
  also have "\<dots> = (pre @ radial_block b p) @ concat (map (\<lambda>(b, p). radial_block b p) (zip bs ps))"
    unfolding step by (rule ih)
  also have "\<dots> = pre @ concat (map (\<lambda>(b, p). radial_block b p) (zip bases (p # ps)))"
    by (simp add: bases)
  finally show ?case .
qed

lemma map_upt_shift: "map f [k..<k + n] = map (\<lambda>b. f (k + b)) [0..<n]"
proof -
  have "[k..<k + n] = map (\<lambda>b. b + k) [0..<n]"
    using map_add_upt[of k n] by (simp add: add.commute)
  then show ?thesis by (simp add: comp_def add.commute)
qed

lemma zip_two_slices:
  "zip (map f [4..<n + 4]) (map h [n + 4..<n + 4 + n])
     = map (\<lambda>b. (f (4 + b), h (n + 4 + b))) [0..<n]"
proof -
  have "map f [4..<n + 4] = map (\<lambda>b. f (4 + b)) [0..<n]"
    using map_upt_shift[of f 4 n] by (simp add: add.commute)
  moreover have "map h [n + 4..<n + 4 + n] = map (\<lambda>b. h (n + 4 + b)) [0..<n]"
    by (rule map_upt_shift)
  ultimately show ?thesis by (simp add: zip_map_map zip_same_conv_map comp_def)
qed

text \<open>What \<open>radial.sample\<close> returns on a well-formed problem.\<close>

lemma radial_sample_result:
  assumes ok: "bounds_ok problem" and N: "0 \<le> N" and seed: "seed_ok seed"
  shows "radial_sample q mt problem N seed g
           = (Inr (radial_matrix q (bounds problem) (nat N)),
              if truthy seed then mt (nat (the seed)) else g)"
proof -
  let ?bnds = "bounds problem" and ?n = "nat N"
  have d: "nat (num_vars problem + 1) = length ?bnds + 1"
    and d': "nat (num_vars problem) = length ?bnds"
    using ok by (auto simp: bounds_ok_def)
  have sd: "(if truthy seed then np_random_seed mt (the seed) else Inr g)
              = Inr (if truthy seed then mt (nat (the seed)) else g)"
    using seed by (cases seed) (auto simp: seed_ok_def truthy_def np_random_seed_def)
  let ?bases = "map (scaled_point q ?bnds) [4..<?n + 4]"
  let ?perts = "map (scaled_point q ?bnds) [?n + 4..<?n + 4 + ?n]"
  have fold: "snd (fold (overlay (length ?bnds)) ?perts (0, np_repeat (length ?bnds + 1) ?bases))
                = radial_matrix q ?bnds ?n"
  proof -
    have raw: "snd (fold (overlay (length ?bnds)) ?perts
                 (length ([]::real list list), [] @ np_repeat (length ?bnds + 1) ?bases))
            = [] @ concat (map (\<lambda>(b, p). radial_block b p) (zip ?bases ?perts))"
      by (rule overlay_fold) (simp_all add: length_scaled_point)
    have z: "zip ?bases ?perts
               = map (\<lambda>b. (scaled_point q ?bnds (4 + b), scaled_point q ?bnds (?n + 4 + b)))
                     [0..<?n]"
      by (rule zip_two_slices)
    have c: "map (\<lambda>(b, p). radial_block b p)
                 (map (\<lambda>b. (scaled_point q ?bnds (4 + b), scaled_point q ?bnds (?n + 4 + b)))
                      [0..<?n])
               = map (\<lambda>b. radial_block (scaled_point q ?bnds (4 + b))
                                         (scaled_point q ?bnds (?n + 4 + b))) [0..<?n]"
      by (simp only: map_map comp_def prod.case)
    show ?thesis
      using raw unfolding z c radial_matrix_def by (simp only: list.size append_Nil)
  qed
  show ?thesis
    unfolding radial_sample_def sd radial_base_rows[OF ok N] radial_perturbations_rows[OF ok N]
      Let_def d d'
    by (simp only: sum.case fold)
qed

lemma radial_matrix_shape:
  "length (radial_matrix q bnds n) = n * (length bnds + 1)"
  "\<forall>row\<in>set (radial_matrix q bnds n). length row = length bnds"
proof -
  show "length (radial_matrix q bnds n) = n * (length bnds + 1)"
    unfolding radial_matrix_def
    using length_concat_uniform[of "map (\<lambda>b. radial_block (scaled_point q bnds (4 + b))
                                          (scaled_point q bnds (n + 4 + b))) [0..<n]"
                                   "length bnds + 1"]
    by (simp add: length_radial_block length_scaled_point)
  show "\<forall>row\<in>set (radial_matrix q bnds n). length row = length bnds"
    by (auto simp: radial_matrix_def radial_block_def length_scaled_point)
qed

lemma radial_matrix_row:
  assumes "b < n" and "j \<le> length bnds"
  shows "radial_matrix q bnds n ! (b * (length bnds + 1) + j)
           = radial_block (scaled_point q bnds (4 + b)) (scaled_point q bnds (n + 4 + b)) ! j"
proof -
  let ?blocks = "map (\<lambda>b. radial_block (scaled_point q bnds (4 + b))
                                        (scaled_point q bnds (n + 4 + b))) [0..<n]"
  have "concat ?blocks ! (b * (length bnds + 1) + j) = ?blocks ! b ! j"
    using assms
    by (intro nth_concat_uniform) (auto simp: length_radial_block length_scaled_point)
  then show ?thesis using assms(1) by (simp add: radial_matrix_def)
qed

lemma radial_block_rows:
  "radial_block base pert ! 0 = base"
  "1 \<le> j \<Longrightarrow> j \<le> length pert \<Longrightarrow> k < length base \<Longrightarrow>
     radial_block base pert ! j ! k
       = (if k = j - 1 \<and> pert ! k \<noteq> 0 then pert ! k else base ! k)"
  by (auto simp: radial_block_def nth_Cons split: nat.splits)

lemma scaled_point_nth:
  "k < length bnds \<Longrightarrow>
   scaled_point q bnds i ! k = q i k * (snd (bnds ! k) - fst (bnds ! k)) + fst (bnds ! k)"
  by (simp add: scaled_point_def scale_row_def split_beta)

lemma bounds_ok_examples: "bounds_ok problem_example" "bounds_ok problem_shifted"
  by (simp_all add: bounds_ok_def problem_example_def problem_shifted_def)

lemma example_scaled_points:
  "scaled_point sobol_example (bounds problem_example) 4 = [3/8, 3/8]"
  "scaled_point sobol_example (bounds problem_example) 5 = [7/8, 7/8]"
  "scaled_point sobol_example (bounds problem_example) 6 = [5/8, 1/8]"
  "scaled_point sobol_example (bounds problem_example) 7 = [1/8, 5/8]"
  "scaled_point sobol_example (bounds problem_shifted) 4 = [3/8, 2]"
  "scaled_point sobol_example (bounds problem_shifted) 5 = [7/8, 6]"
  "scaled_point sobol_example (bounds problem_shifted) 6 = [5/8, 0]"
  "scaled_point sobol_example (bounds problem_shifted) 7 = [1/8, 4]"
  by (simp_all add: scaled_point_def scale_row_def sobol_example_def problem_example_def
                    problem_shifted_def upt_0_2)

text \<open>
  Claim C8. For a well-formed problem of \<open>D\<close> parameters and \<open>N\<close> replicates, the radial
  sampler returns a matrix of shape \<open>(N * (D + 1), D)\<close>. Its baselines are the points
  \<open>4 .. N + 3\<close> of the sequence (the first four dropped) scaled into the bounds, each
  heading a block of \<open>D + 1\<close> contiguous rows that repeat it up to the overlaid coordinate;
  its perturbations are the points \<open>R .. R + N - 1\<close> (\<open>R = N + 4\<close>) of the same sequence
  scaled into the bounds; the two index ranges do not overlap.
\<close>

theorem radial_sample_layout:
  assumes "bounds_ok problem" and "0 \<le> N" and "seed_ok seed"
  shows "let D = nat (num_vars problem); n = nat N; bnds = bounds problem
         in radial_base q problem N = Inr (map (scaled_point q bnds) [4..<n + 4])
            \<and> radial_perturbations q problem N
                = Inr (map (scaled_point q bnds) [n + 4..<n + 4 + n])
            \<and> set [4..<n + 4] \<inter> set [n + 4..<n + 4 + n] = {}
            \<and> (\<exists>X. fst (radial_sample q mt problem N seed g) = Inr X
                  \<and> length X = n * (D + 1) \<and> (\<forall>row\<in>set X. length row = D)
                  \<and> (\<forall>b<n. X ! (b * (D + 1)) = scaled_point q bnds (4 + b)
                        \<and> (\<forall>j k. 1 \<le> j \<and> j \<le> D \<and> k < D \<longrightarrow>
                              X ! (b * (D + 1) + j) ! k
                                = (if k = j - 1 \<and> scaled_point q bnds (n + 4 + b) ! k \<noteq> 0
                                   then scaled_point q bnds (n + 4 + b) ! k
                                   else scaled_point q bnds (4 + b) ! k))))"
proof -
  let ?D = "nat (num_vars problem)" and ?n = "nat N" and ?bnds = "bounds problem"
  note N = assms(2)
  have D: "?D = length ?bnds" using assms(1) by (auto simp: bounds_ok_def)
  have res: "fst (radial_sample q mt problem N seed g) = Inr (radial_matrix q ?bnds ?n)"
    by (simp add: radial_sample_result[OF assms(1) N assms(3)])
  have rows: "radial_matrix q ?bnds ?n ! (b * (?D + 1)) = scaled_point q ?bnds (4 + b)
              \<and> (\<forall>j k. 1 \<le> j \<and> j \<le> ?D \<and> k < ?D \<longrightarrow>
                    radial_matrix q ?bnds ?n ! (b * (?D + 1) + j) ! k
                      = (if k = j - 1 \<and> scaled_point q ?bnds (?n + 4 + b) ! k \<noteq> 0
                         then scaled_point q ?bnds (?n + 4 + b) ! k
                         else scaled_point q ?bnds (4 + b) ! k))" if b: "b < ?n" for b
  proof (intro conjI allI impI)
    show "radial_matrix q ?bnds ?n ! (b * (?D + 1)) = scaled_point q ?bnds (4 + b)"
      using radial_matrix_row[OF b, of 0 ?bnds q] by (simp add: D radial_block_rows(1))
  next
    fix j k assume jk: "1 \<le> j \<and> j \<le> ?D \<and> k < ?D"
    then have "radial_matrix q ?bnds ?n ! (b * (?D + 1) + j)
                 = radial_block (scaled_point q ?bnds (4 + b))
                                (scaled_point q ?bnds (?n + 4 + b)) ! j"
      unfolding D by (intro radial_matrix_row[OF b]) simp
    then show "radial_matrix q ?bnds ?n ! (b * (?D + 1) + j) ! k
                 = (if k = j - 1 \<and> scaled_point q ?bnds (?n + 4 + b) ! k \<noteq> 0
                    then scaled_point q ?bnds (?n + 4 + b) ! k
                    else scaled_point q ?bnds (4 + b) ! k)"
      using jk radial_block_rows(2)[of j "scaled_point q ?bnds (?n + 4 + b)" k
                                      "scaled_point q ?bnds (4 + b)"]
      by (simp add: D length_scaled_point)
  qed
  have shape: "length (radial_matrix q ?bnds ?n) = ?n * (?D + 1)"
    "\<forall>row\<in>set (radial_matrix q ?bnds ?n). length row = ?D"
    using radial_matrix_shape[of q ?bnds ?n] by (simp_all add: D)
  have disj: "set [4..<?n + 4] \<inter> set [?n + 4..<?n + 4 + ?n] = {}" by auto
  show ?thesis
    unfolding Let_def
    using radial_base_rows[OF assms(1) N, of q] radial_perturbations_rows[OF assms(1) N, of q]
      disj res shape rows
    by blast
qed

lemma seed_ok_examples: "seed_ok None" "seed_ok (Some 1)" "seed_ok (Some 2)"
  by (simp_all add: seed_ok_def)

lemma radial_matrix_example:
  "radial_matrix sobol_example (bounds problem_example) 2
     = [[3/8, 3/8], [5/8, 3/8], [3/8, 1/8], [7/8, 7/8], [1/8, 7/8], [7/8, 5/8]]"
  "radial_matrix sobol_example (bounds problem_shifted) 2
     = [[3/8, 2], [5/8, 2], [3/8, 2], [7/8, 6], [1/8, 6], [7/8, 4]]"
proof -
  have s: "(4::nat) + 0 = 4" "(4::nat) + 1 = 5" "(2::nat) + 4 + 0 = 6" "(2::nat) + 4 + 1 = 7"
    by simp_all
  show "radial_matrix sobol_example (bounds problem_example) 2
     = [[3/8, 3/8], [5/8, 3/8], [3/8, 1/8], [7/8, 7/8], [1/8, 7/8], [7/8, 5/8]]"
    unfolding radial_matrix_def upt_0_2 list.map s example_scaled_points
    by (simp add: radial_block_def upt_0_2)
  show "radial_matrix sobol_example (bounds problem_shifted) 2
     = [[3/8, 2], [5/8, 2], [3/8, 2], [7/8, 6], [1/8, 6], [7/8, 4]]"
    unfolding radial_matrix_def upt_0_2 list.map s example_scaled_points
    by (simp add: radial_block_def upt_0_2)
qed

theorem radial_sample_layout_witness:
  "bounds_ok problem_example \<and> (0::int) \<le> 2 \<and> seed_ok (Some 1)
   \<and> radial_base sobol_example problem_example 2 = Inr [[3/8, 3/8], [7/8, 7/8]]
   \<and> radial_perturbations sobol_example problem_example 2 = Inr [[5/8, 1/8], [1/8, 5/8]]
   \<and> (\<exists>X. fst (radial_sample sobol_example mt_example problem_example 2 (Some 1) rng_example)
              = Inr X
          \<and> length X = 6 \<and> X ! 0 = [3/8, 3/8] \<and> X ! 3 = [7/8, 7/8])"
proof -
  have n: "(0::int) \<le> 2" by simp
  have D: "nat (num_vars problem_example) = 2" by (simp add: problem_example_def)
  have u: "[4..<6] = [4, 5]" "[6..<8] = [6, 7]"
    by (simp_all add: upt_rec)
  note t = radial_sample_layout[OF bounds_ok_examples(1) n seed_ok_examples(2),
             of sobol_example mt_example rng_example, unfolded Let_def D]
  from t have b: "radial_base sobol_example problem_example 2 = Inr [[3/8, 3/8], [7/8, 7/8]]"
    by (simp add: u example_scaled_points)
  from t have p: "radial_perturbations sobol_example problem_example 2
                    = Inr [[5/8, 1/8], [1/8, 5/8]]"
    by (simp add: u example_scaled_points)
  from t obtain X where
    X: "fst (radial_sample sobol_example mt_example problem_example 2 (Some 1) rng_example) = Inr X"
    and len: "length X = nat 2 * (2 + 1)"
    and rows: "\<forall>b<nat 2. X ! (b * (2 + 1)) = scaled_point sobol_example (bounds problem_example) (4 + b)"
    by blast
  have "(0::nat) < nat 2" "(1::nat) < nat 2" by simp_all
  with rows have "X ! (0 * (2 + 1)) = scaled_point sobol_example (bounds problem_example) (4 + 0)"
    and "X ! (1 * (2 + 1)) = scaled_point sobol_example (bounds problem_example) (4 + 1)"
    by blast+
  then have r: "X ! 0 = [3/8, 3/8]" "X ! 3 = [7/8, 7/8]"
    by (simp_all add: example_scaled_points)
  from len have "length X = 6" by simp
  with X r b p bounds_ok_examples(1) n seed_ok_examples(2) show ?thesis by blast
qed




text \<open>
  Claim C5, as amended. On a well-formed problem, two calls of the radial sampler with the
  same problem and \<open>N\<close> return the same matrix, whatever their seeds and whatever the random
  state before each call: with the same seed, and with different seeds as well. (The seed
  only re-seeds \<open>np.random\<close>, from which the sampler never draws.)
\<close>

theorem radial_sample_seed_independent:
  assumes "bounds_ok problem" and "0 \<le> N" and "seed_ok seed1" and "seed_ok seed2"
  shows "\<exists>X. fst (radial_sample q mt problem N seed1 g1) = Inr X
            \<and> fst (radial_sample q mt problem N seed2 g2) = Inr X"
  by (simp add: radial_sample_result[OF assms(1,2,3)] radial_sample_result[OF assms(1,2,4)])

theorem radial_sample_seed_independent_witness:
  "bounds_ok problem_example \<and> (0::int) \<le> 2 \<and> seed_ok (Some 1) \<and> seed_ok (Some 2)
   \<and> (\<exists>X. fst (radial_sample sobol_example mt_example problem_example 2 (Some 1) rng_example)
              = Inr X
          \<and> fst (radial_sample sobol_example mt_example problem_example 2 (Some 2) rng_example)
              = Inr X)"
proof -
  have n: "(0::int) \<le> 2" by simp
  show ?thesis
    using radial_sample_seed_independent[OF bounds_ok_examples(1) n seed_ok_examples(2,3),
            of sobol_example mt_example rng_example rng_example]
      bounds_ok_examples(1) n seed_ok_examples(2,3)
    by blast
qed

theorem radial_sample_seed_counterexample:
  "fst (radial_sample sobol_example mt_example problem_example 2 (Some 1) rng_example)
     = Inr [[3/8, 3/8], [5/8, 3/8], [3/8, 1/8], [7/8, 7/8], [1/8, 7/8], [7/8, 5/8]]
   \<and> fst (radial_sample sobol_example mt_example problem_example 2 (Some 2) rng_example)
     = Inr [[3/8, 3/8], [5/8, 3/8], [3/8, 1/8], [7/8, 7/8], [1/8, 7/8], [7/8, 5/8]]"
proof -
  have n: "(0::int) \<le> 2" by simp
  show ?thesis
    by (simp add: radial_sample_result[OF bounds_ok_examples(1) n seed_ok_examples(2)]
                  radial_sample_result[OF bounds_ok_examples(1) n seed_ok_examples(3)]
                  radial_matrix_example)
qed

section \<open>The Latin hypercube design\<close>











































end
